theory Spec2Isabelle
  imports Main "HOL-Library.Sublist" "HOL-Library.Char_ord" "HOL-Library.List_Lexorder"
    "HOL-Library.AList"
begin

section \<open>The RCIP validator (validators/python/rcip\_validator.py)\<close>

text \<open>
  A shallow embedding of \<^verbatim>\<open>RCIPValidator\<close>. The recipe handed to
  \<^verbatim>\<open>validate_recipe\<close> is whatever \<^verbatim>\<open>json.load\<close> returned, so the
  document is a dynamically typed value and every operation the code performs on it
  (\<^verbatim>\<open>in\<close>, subscription, \<^verbatim>\<open>.get\<close>, iteration, hashing, ordering, regular
  expression matching) either yields a value or raises. Raising is the \<open>Inl\<close> branch of
  a sum.

  Two limits of the value model, both on the input domain: a number of the document is
  a Python \<^verbatim>\<open>int\<close> (the \<^verbatim>\<open>float\<close> values of JSON are not modelled), and a
  character is a code point below 256.
\<close>

subsection \<open>Python values and exceptions\<close>

datatype json =
    JNull
  | JBool bool
  | JInt int
  | JStr string
  | JArr "json list"
  | JObj "(string \<times> json) list"

text \<open>
  \<open>JObj\<close> carries the items of a \<^verbatim>\<open>dict\<close> in insertion order; lookups go through
  \<open>map_of\<close>.
\<close>

datatype error =
    RuntimeError
  | TypeError
  | AttributeError
  | KeyError
  | OverflowError
  | FileNotFoundError
  | ValueError

definition and_then :: "error + 'a \<Rightarrow> ('a \<Rightarrow> error + 'b) \<Rightarrow> error + 'b" where
  "and_then m f = (case m of Inl e \<Rightarrow> Inl e | Inr x \<Rightarrow> f x)"

text \<open>A \<^verbatim>\<open>for\<close> loop over a list that threads the mutated object and stops at a raise.\<close>

fun for_each :: "('a \<Rightarrow> 's \<Rightarrow> error + 's) \<Rightarrow> 'a list \<Rightarrow> 's \<Rightarrow> error + 's" where
  "for_each f [] s = Inr s"
| "for_each f (x # xs) s = and_then (f x s) (for_each f xs)"

text \<open>\<^verbatim>\<open>any(g(x) for x in xs)\<close>: stops at the first true element.\<close>

fun py_any :: "('a \<Rightarrow> error + bool) \<Rightarrow> 'a list \<Rightarrow> error + bool" where
  "py_any g [] = Inr False"
| "py_any g (x # xs) = and_then (g x) (\<lambda>b. if b then Inr True else py_any g xs)"

text \<open>\<^verbatim>\<open>key in x\<close> for a string key.\<close>

fun py_contains :: "string \<Rightarrow> json \<Rightarrow> error + bool" where
  "py_contains k (JObj kvs) = Inr (k \<in> set (map fst kvs))"
| "py_contains k (JArr xs) = Inr (JStr k \<in> set xs)"
| "py_contains k (JStr s) = Inr (sublist k s)"
| "py_contains k _ = Inl TypeError"

text \<open>\<^verbatim>\<open>x[key]\<close> for a string key.\<close>

fun py_getitem :: "json \<Rightarrow> string \<Rightarrow> error + json" where
  "py_getitem (JObj kvs) k = (case map_of kvs k of None \<Rightarrow> Inl KeyError | Some v \<Rightarrow> Inr v)"
| "py_getitem _ k = Inl TypeError"

text \<open>\<^verbatim>\<open>d.get(key, default)\<close> on a dict, and on an arbitrary value.\<close>

definition dict_get :: "(string \<times> json) list \<Rightarrow> string \<Rightarrow> json \<Rightarrow> json" where
  "dict_get kvs k d = (case map_of kvs k of None \<Rightarrow> d | Some v \<Rightarrow> v)"

fun py_get :: "json \<Rightarrow> string \<Rightarrow> json \<Rightarrow> error + json" where
  "py_get (JObj kvs) k d = Inr (dict_get kvs k d)"
| "py_get _ k d = Inl AttributeError"

text \<open>Iteration: a list yields its elements, a dict its keys, a string its characters.\<close>

fun py_iter :: "json \<Rightarrow> error + json list" where
  "py_iter (JArr xs) = Inr xs"
| "py_iter (JObj kvs) = Inr (map (\<lambda>kv. JStr (fst kv)) kvs)"
| "py_iter (JStr s) = Inr (map (\<lambda>c. JStr [c]) s)"
| "py_iter _ = Inl TypeError"

fun py_len :: "json \<Rightarrow> error + int" where
  "py_len (JArr xs) = Inr (int (length xs))"
| "py_len (JObj kvs) = Inr (int (length kvs))"
| "py_len (JStr s) = Inr (int (length s))"
| "py_len _ = Inl TypeError"

text \<open>Truth value of an object, as \<^verbatim>\<open>if x\<close>, \<^verbatim>\<open>not x\<close> and \<^verbatim>\<open>bool(x)\<close> take it.\<close>

fun py_truthy :: "json \<Rightarrow> bool" where
  "py_truthy JNull = False"
| "py_truthy (JBool b) = b"
| "py_truthy (JInt n) = (n \<noteq> 0)"
| "py_truthy (JStr s) = (s \<noteq> [])"
| "py_truthy (JArr xs) = (xs \<noteq> [])"
| "py_truthy (JObj kvs) = (kvs \<noteq> [])"

text \<open>\<^verbatim>\<open>isinstance(x, list)\<close>, \<^verbatim>\<open>isinstance(x, (int, float))\<close> (a bool is an int).\<close>

fun is_list :: "json \<Rightarrow> bool" where
  "is_list (JArr xs) = True"
| "is_list _ = False"

fun num_val :: "json \<Rightarrow> int option" where
  "num_val (JInt n) = Some n"
| "num_val (JBool b) = Some (if b then 1 else 0)"
| "num_val _ = None"

definition is_number :: "json \<Rightarrow> bool" where
  "is_number x = (num_val x \<noteq> None)"

text \<open>\<^verbatim>\<open>x < c\<close> and \<^verbatim>\<open>x > c\<close> against an int literal: numbers compare, the rest raises.\<close>

definition py_lt :: "json \<Rightarrow> int \<Rightarrow> error + bool" where
  "py_lt x c = (case num_val x of None \<Rightarrow> Inl TypeError | Some n \<Rightarrow> Inr (n < c))"

definition py_gt :: "json \<Rightarrow> int \<Rightarrow> error + bool" where
  "py_gt x c = (case num_val x of None \<Rightarrow> Inl TypeError | Some n \<Rightarrow> Inr (n > c))"

text \<open>\<^verbatim>\<open>x in [s1, s2, ...]\<close> for a list of string constants: only an equal string is in it.\<close>

fun in_vocab :: "json \<Rightarrow> string list \<Rightarrow> bool" where
  "in_vocab (JStr s) vocab = (s \<in> set vocab)"
| "in_vocab _ vocab = False"

subsection \<open>Sets of hashable values\<close>

text \<open>
  A \<^verbatim>\<open>set\<close> holds hashable objects: lists and dicts raise \<^verbatim>\<open>TypeError\<close> when
  hashed. Two members are the same when \<^verbatim>\<open>==\<close> says so, and \<^verbatim>\<open>True == 1\<close>. The
  set is kept as the list of its members in insertion order.
\<close>

fun hashable :: "json \<Rightarrow> bool" where
  "hashable (JArr xs) = False"
| "hashable (JObj kvs) = False"
| "hashable _ = True"

definition key_eq :: "json \<Rightarrow> json \<Rightarrow> bool" where
  "key_eq a b = (case (num_val a, num_val b) of
                   (Some x, Some y) \<Rightarrow> x = y
                 | (None, None) \<Rightarrow> a = b
                 | _ \<Rightarrow> False)"

definition in_set :: "json \<Rightarrow> json list \<Rightarrow> bool" where
  "in_set x s = list_ex (key_eq x) s"

definition set_contains :: "json \<Rightarrow> json list \<Rightarrow> error + bool" where
  "set_contains x s = (if hashable x then Inr (in_set x s) else Inl TypeError)"

definition set_add :: "json \<Rightarrow> json list \<Rightarrow> error + json list" where
  "set_add x s = (if \<not> hashable x then Inl TypeError
                  else if in_set x s then Inr s else Inr (s @ [x]))"

text \<open>\<^verbatim>\<open>{x[key] for x in xs if key in x}\<close>\<close>

definition collect_ids :: "string \<Rightarrow> json list \<Rightarrow> error + json list" where
  "collect_ids key xs =
     for_each (\<lambda>x s. and_then (py_contains key x) (\<lambda>c.
                 if c then and_then (py_getitem x key) (\<lambda>v. set_add v s) else Inr s)) xs []"

subsection \<open>Strings: \<^verbatim>\<open>str\<close>, \<^verbatim>\<open>repr\<close>, \<^verbatim>\<open>join\<close>\<close>

definition digit_char :: "nat \<Rightarrow> char" where
  "digit_char d = ''0123456789abcdef'' ! (d mod 16)"

fun str_nat :: "nat \<Rightarrow> string" where
  "str_nat n = (if n < 10 then [digit_char n] else str_nat (n div 10) @ [digit_char (n mod 10)])"

declare str_nat.simps [simp del]

definition str_int :: "int \<Rightarrow> string" where
  "str_int n = (if n < 0 then ''-'' @ str_nat (nat (- n)) else str_nat (nat n))"

fun join :: "string \<Rightarrow> string list \<Rightarrow> string" where
  "join sep [] = []"
| "join sep [x] = x"
| "join sep (x # y # ys) = x @ sep @ join sep (y # ys)"

text \<open>
  \<^verbatim>\<open>repr\<close> of a string: double quotes when the string has a single quote and no
  double quote, single quotes otherwise; the quote and the backslash are escaped, tab,
  newline and carriage return are written with their letters, and every other
  non-printable code point as \<^verbatim>\<open>\xhh\<close>.
\<close>

definition printable :: "char \<Rightarrow> bool" where
  "printable c = (let n = (of_char c :: nat) in
                    32 \<le> n \<and> n < 127 \<or> 160 < n \<and> n \<noteq> 173)"

definition repr_char :: "char \<Rightarrow> char \<Rightarrow> string" where
  "repr_char q c =
     (if c = q \<or> c = CHR 0x5C then [CHR 0x5C, c]
      else if c = CHR 0x09 then [CHR 0x5C, CHR ''t'']
      else if c = CHR 0x0A then [CHR 0x5C, CHR ''n'']
      else if c = CHR 0x0D then [CHR 0x5C, CHR ''r'']
      else if printable c then [c]
      else [CHR 0x5C, CHR ''x'', digit_char (of_char c div 16), digit_char (of_char c mod 16)])"

definition repr_str :: "string \<Rightarrow> string" where
  "repr_str s =
     (let q = (if CHR 0x27 \<in> set s \<and> CHR 0x22 \<notin> set s then CHR 0x22 else CHR 0x27)
      in [q] @ concat (map (repr_char q) s) @ [q])"

fun py_repr :: "json \<Rightarrow> string" where
  "py_repr JNull = ''None''"
| "py_repr (JBool b) = (if b then ''True'' else ''False'')"
| "py_repr (JInt n) = str_int n"
| "py_repr (JStr s) = repr_str s"
| "py_repr (JArr xs) = ''['' @ join '', '' (map py_repr xs) @ '']''"
| "py_repr (JObj kvs) =
     ''{'' @ join '', '' (map (\<lambda>kv. repr_str (fst kv) @ '': '' @ py_repr (snd kv)) kvs) @ ''}''"

text \<open>\<^verbatim>\<open>str(x)\<close>, which is what an f-string field \<^verbatim>\<open>{x}\<close> inserts.\<close>

fun py_str :: "json \<Rightarrow> string" where
  "py_str (JStr s) = s"
| "py_str x = py_repr x"

subsection \<open>The identifier patterns\<close>

text \<open>
  The patterns are anchored with \<^verbatim>\<open>^\<close> and \<^verbatim>\<open>$\<close> and applied with
  \<^verbatim>\<open>match\<close>. \<^verbatim>\<open>$\<close> matches at the end of the string and also just before a
  newline that ends the string. A pattern applied to a value that is not a string raises.
\<close>

definition at_end :: "string \<Rightarrow> bool" where
  "at_end s = (s = [] \<or> s = [CHR 0x0A])"

definition is_hex_char :: "char \<Rightarrow> bool" where
  "is_hex_char c = (c \<in> set ''0123456789abcdef'')"

definition is_alnum_char :: "char \<Rightarrow> bool" where
  "is_alnum_char c =
     (c \<in> set ''0123456789abcdefghijklmnopqrstuvwxyzABCDEFGHIJKLMNOPQRSTUVWXYZ'')"

definition eat_lit :: "string \<Rightarrow> string \<Rightarrow> string option" where
  "eat_lit l s = (if prefix l s then Some (drop (length l) s) else None)"

definition eat_hex :: "nat \<Rightarrow> string \<Rightarrow> string option" where
  "eat_hex n s = (if n \<le> length s \<and> list_all is_hex_char (take n s)
                  then Some (drop n s) else None)"

definition RECIPE_ID_PATTERN :: "string \<Rightarrow> bool" where
  "RECIPE_ID_PATTERN s =
     (case foldl Option.bind (Some s)
             [eat_lit ''rcip-'', eat_hex 8, eat_lit ''-'', eat_hex 4, eat_lit ''-'',
              eat_hex 4, eat_lit ''-'', eat_hex 4, eat_lit ''-'', eat_hex 12] of
        None \<Rightarrow> False
      | Some rest \<Rightarrow> at_end rest)"

definition alnum_id :: "string \<Rightarrow> string \<Rightarrow> bool" where
  "alnum_id pre s =
     (case eat_lit pre s of
        None \<Rightarrow> False
      | Some rest \<Rightarrow> takeWhile is_alnum_char rest \<noteq> [] \<and> at_end (dropWhile is_alnum_char rest))"

definition INGREDIENT_ID_PATTERN :: "string \<Rightarrow> bool" where
  "INGREDIENT_ID_PATTERN = alnum_id ''ing-''"

definition STEP_ID_PATTERN :: "string \<Rightarrow> bool" where
  "STEP_ID_PATTERN = alnum_id ''s-''"

fun re_match :: "(string \<Rightarrow> bool) \<Rightarrow> json \<Rightarrow> error + bool" where
  "re_match p (JStr s) = Inr (p s)"
| "re_match p _ = Inl TypeError"

subsection \<open>\<^verbatim>\<open>total_time / 60\<close> and its \<^verbatim>\<open>.1f\<close> rendering\<close>

text \<open>
  The quotient of two ints is the double nearest to the exact quotient (ties to the
  even significand), or \<^verbatim>\<open>OverflowError\<close> above the largest double; \<^verbatim>\<open>.1f\<close>
  prints the decimal with one fractional digit nearest to that double (ties to the even
  digit). The code divides only a \<^verbatim>\<open>total_time\<close> above 1440, so the quotient is a
  normal positive double: a significand \<open>m\<close> with \<open>2^52 \<le> m \<le> 2^53\<close> and an exponent
  \<open>e\<close>, standing for \<open>m * 2^e\<close>.
\<close>

definition round_div :: "int \<Rightarrow> int \<Rightarrow> int" where
  "round_div a b =
     (let q = a div b; r = a mod b
      in if 2 * r < b then q else if b < 2 * r then q + 1 else if even q then q else q + 1)"

fun bit_length :: "nat \<Rightarrow> nat" where
  "bit_length n = (if n = 0 then 0 else Suc (bit_length (n div 2)))"

declare bit_length.simps [simp del]

definition div60_exponent :: "int \<Rightarrow> int" where
  "div60_exponent n =
     (let b = bit_length (nat n);
          k = (if 60 * 2 ^ (b - 6) \<le> n then int b - 6 else int b - 7)
      in k - 52)"

definition div60 :: "int \<Rightarrow> error + int \<times> int" where
  "div60 n =
     (let e = div60_exponent n;
          m = (if 0 \<le> e then round_div n (60 * 2 ^ nat e) else round_div (n * 2 ^ nat (- e)) 60)
      in if 971 < e \<or> e = 971 \<and> m = 2 ^ 53 then Inl OverflowError else Inr (m, e))"

definition tenths :: "int \<times> int \<Rightarrow> int" where
  "tenths d =
     (let m = fst d; e = snd d
      in if 0 \<le> e then 10 * m * 2 ^ nat e else round_div (10 * m) (2 ^ nat (- e)))"

definition fmt_1f :: "int \<times> int \<Rightarrow> string" where
  "fmt_1f d = (let t = tenths d in str_int (t div 10) @ ''.'' @ [digit_char (nat (t mod 10))])"

text \<open>
  \<^verbatim>\<open>sorted(list(s))\<close> for a set \<open>s\<close>. The members are pairwise different, so the
  result does not depend on the order in which the set hands them out. Strings compare with
  strings and numbers with numbers; any other comparison raises, and sorting two or more
  members compares each of them with another one.
\<close>

fun is_str :: "json \<Rightarrow> bool" where
  "is_str (JStr s) = True"
| "is_str _ = False"

definition py_sorted :: "json list \<Rightarrow> error + json list" where
  "py_sorted xs =
     (if length xs \<le> 1 then Inr xs
      else if list_all is_str xs then Inr (sort_key py_str xs)
      else if list_all is_number xs then Inr (sort_key (\<lambda>x. the (num_val x)) xs)
      else Inl TypeError)"

subsection \<open>Controlled vocabularies\<close>

definition Allergen :: "string list" where
  "Allergen = [''milk'', ''eggs'', ''fish'', ''shellfish'', ''tree-nuts'', ''peanuts'',
     ''wheat'', ''gluten'', ''soybeans'', ''sesame'', ''celery'', ''mustard'', ''molluscs'',
     ''lupins'', ''sulphites'', ''lactose'']"

definition CookingAction :: "string list" where
  "CookingAction = [''add'', ''mix'', ''combine'', ''blend'', ''cut'', ''slice'', ''dice'',
     ''chop'', ''mince'', ''heat'', ''boil'', ''simmer'', ''steam'', ''fry'', ''saute'',
     ''bake'', ''roast'', ''grill'', ''cool'', ''chill'', ''freeze'', ''knead'', ''fold'',
     ''roll'', ''shape'', ''ferment'', ''proof'', ''rest'', ''strain'', ''filter'',
     ''separate'', ''measure'', ''weigh'', ''wait'', ''dissolve'', ''prepare'', ''spread'',
     ''garnish'', ''divide'']"

definition Unit_values :: "string list" where
  "Unit_values = [''mg'', ''g'', ''kg'', ''oz'', ''lb'', ''ml'', ''l'', ''tsp'', ''tbsp'',
     ''cup'', ''fl-oz'', ''pt'', ''qt'', ''gal'', ''pcs'', ''dozen'', ''pinch'', ''dash'',
     ''handful'', ''to-taste'']"

definition valid_hazards :: "string list" where
  "valid_hazards = [''hot-surface'', ''sharp-tool'', ''electrical'', ''chemical'',
     ''pressure'', ''allergen-cross-contact'']"

subsection \<open>Results, statistics and the validator object\<close>

record validation_result =
  valid :: bool
  errors :: "string list"
  warnings :: "string list"
  info :: "(string \<times> json) list"

text \<open>\<^verbatim>\<open>ValidationResult(valid=True)\<close>\<close>

definition fresh :: validation_result where
  "fresh = \<lparr>valid = True, errors = [], warnings = [], info = []\<rparr>"

record validation_stats =
  validated :: int
  passed :: int
  failed :: int

text \<open>
  The schema checker is the \<^verbatim>\<open>jsonschema\<close> library's \<^verbatim>\<open>Draft7Validator\<close>, which
  is not part of the repository. It is a parameter: the function from a document to the
  violations \<^verbatim>\<open>iter_errors\<close> yields, each with a path and a message. Its
  \<^verbatim>\<open>validate\<close> method raises the first of them.
\<close>

record violation =
  path :: "json list"
  message :: string

type_synonym draft7_validator = "json \<Rightarrow> violation list"

record rcip_validator =
  schema_version :: string
  schema :: "json option"
  validator :: "draft7_validator option"
  stats :: validation_stats

definition RCIPValidator :: "string \<Rightarrow> rcip_validator" where
  "RCIPValidator version =
     \<lparr>schema_version = version, schema = None, validator = None,
      stats = \<lparr>validated = 0, passed = 0, failed = 0\<rparr>\<rparr>"

text \<open>
  \<^verbatim>\<open>init\<close> reads and parses the schema file; \<open>file\<close> is the outcome of that
  (\<^verbatim>\<open>FileNotFoundError\<close>, \<^verbatim>\<open>ValueError\<close> for text that is not JSON, or the
  schema), and \<open>draft7\<close> builds the checker of a schema.
\<close>

definition init :: "error + json \<Rightarrow> (json \<Rightarrow> draft7_validator) \<Rightarrow> rcip_validator
                    \<Rightarrow> error + rcip_validator" where
  "init file draft7 self =
     (case file of
        Inl e \<Rightarrow> Inl e
      | Inr s \<Rightarrow> Inr (self\<lparr>schema := Some s, validator := Some (draft7 s)\<rparr>))"

definition reset_stats :: "rcip_validator \<Rightarrow> rcip_validator" where
  "reset_stats self = self\<lparr>stats := \<lparr>validated = 0, passed = 0, failed = 0\<rparr>\<rparr>"

text \<open>\<^verbatim>\<open>result.errors.append(m)\<close>, \<^verbatim>\<open>result.warnings.append(m)\<close>\<close>

definition append_error :: "string \<Rightarrow> validation_result \<Rightarrow> validation_result" where
  "append_error m result = result\<lparr>errors := errors result @ [m]\<rparr>"

definition append_warning :: "string \<Rightarrow> validation_result \<Rightarrow> validation_result" where
  "append_warning m result = result\<lparr>warnings := warnings result @ [m]\<rparr>"

definition quoted :: "string \<Rightarrow> string" where
  "quoted s = [CHR 0x27] @ s @ [CHR 0x27]"

subsection \<open>\<^verbatim>\<open>_validate_ingredient\<close>\<close>

text \<open>Check ID format.\<close>

definition ingredient_id_format :: "json \<Rightarrow> nat \<Rightarrow> validation_result \<Rightarrow> error + validation_result" where
  "ingredient_id_format ingredient index result =
     and_then (py_contains ''id'' ingredient) (\<lambda>has_id.
       if \<not> has_id then Inr result
       else and_then (py_getitem ingredient ''id'') (\<lambda>v.
            and_then (re_match INGREDIENT_ID_PATTERN v) (\<lambda>m.
              if m then Inr result
              else Inr (append_error
                          (''Ingredient '' @ str_nat index @ '': Invalid ID format: '' @ py_str v)
                          (result\<lparr>valid := False\<rparr>)))))"

text \<open>Check allergens (must be present, can be empty). The inner loop cannot raise.\<close>

definition allergen_values :: "nat \<Rightarrow> json list \<Rightarrow> validation_result \<Rightarrow> validation_result" where
  "allergen_values index allergens result =
     foldl (\<lambda>r allergen.
              if in_vocab allergen Allergen then r
              else append_error (''Ingredient '' @ str_nat index @ '': Invalid allergen ''
                                   @ quoted (py_str allergen)) r)
           result allergens"

definition ingredient_allergens :: "json \<Rightarrow> nat \<Rightarrow> validation_result \<Rightarrow> error + validation_result" where
  "ingredient_allergens ingredient index result =
     and_then (py_contains ''allergens'' ingredient) (\<lambda>has.
       if \<not> has then
         Inr (append_error (''Ingredient '' @ str_nat index @ '': Missing required allergens field'')
                (result\<lparr>valid := False\<rparr>))
       else and_then (py_getitem ingredient ''allergens'') (\<lambda>a.
         case a of
           JArr allergens \<Rightarrow> Inr (allergen_values index allergens result)
         | _ \<Rightarrow> Inr (append_error (''Ingredient '' @ str_nat index @ '': allergens must be an array'')
                       (result\<lparr>valid := False\<rparr>))))"

text \<open>
  Check machine amount. The three-part \<^verbatim>\<open>or\<close> stops at its first true operand:
  \<^verbatim>\<open>ma['value']\<close> is read only when \<^verbatim>\<open>'value' in ma\<close>, and compared with 0 only
  when it is a number.
\<close>

definition bad_value :: "json \<Rightarrow> error + bool" where
  "bad_value ma =
     and_then (py_contains ''value'' ma) (\<lambda>has.
       if \<not> has then Inr True
       else and_then (py_getitem ma ''value'') (\<lambda>v.
              if \<not> is_number v then Inr True else py_lt v 0))"

definition ingredient_machine_amount :: "json \<Rightarrow> nat \<Rightarrow> validation_result \<Rightarrow> error + validation_result" where
  "ingredient_machine_amount ingredient index result =
     and_then (py_contains ''machine_amount'' ingredient) (\<lambda>has.
       if \<not> has then Inr result
       else and_then (py_getitem ingredient ''machine_amount'') (\<lambda>ma.
            and_then (bad_value ma) (\<lambda>bad.
            let result = (if bad then append_error (''Ingredient '' @ str_nat index
                                      @ '': machine_amount.value must be non-negative number'') result
                          else result)
            in and_then (py_contains ''unit'' ma) (\<lambda>has_unit.
                 if \<not> has_unit then
                   Inr (append_error (''Ingredient '' @ str_nat index
                                        @ '': machine_amount.unit is required'') result)
                 else and_then (py_getitem ma ''unit'') (\<lambda>u.
                        if in_vocab u Unit_values then Inr result
                        else Inr (append_warning (''Ingredient '' @ str_nat index
                                    @ '': Non-standard unit '' @ quoted (py_str u)) result))))))"

definition validate_ingredient :: "json \<Rightarrow> nat \<Rightarrow> validation_result \<Rightarrow> error + validation_result" where
  "validate_ingredient ingredient index result =
     and_then (ingredient_id_format ingredient index result) (\<lambda>result.
     and_then (ingredient_allergens ingredient index result) (\<lambda>result.
     ingredient_machine_amount ingredient index result))"

subsection \<open>\<^verbatim>\<open>_validate_step\<close>\<close>

definition step_id_format :: "json \<Rightarrow> nat \<Rightarrow> validation_result \<Rightarrow> error + validation_result" where
  "step_id_format step index result =
     and_then (py_contains ''step_id'' step) (\<lambda>has_id.
       if \<not> has_id then Inr result
       else and_then (py_getitem step ''step_id'') (\<lambda>v.
            and_then (re_match STEP_ID_PATTERN v) (\<lambda>m.
              if m then Inr result
              else Inr (append_error
                          (''Step '' @ str_nat index @ '': Invalid ID format: '' @ py_str v)
                          (result\<lparr>valid := False\<rparr>)))))"

definition step_action :: "json \<Rightarrow> nat \<Rightarrow> validation_result \<Rightarrow> error + validation_result" where
  "step_action step index result =
     and_then (py_contains ''action'' step) (\<lambda>has.
       if \<not> has then Inr result
       else and_then (py_getitem step ''action'') (\<lambda>a.
              if in_vocab a CookingAction then Inr result
              else Inr (append_error (''Step '' @ str_nat index @ '': Invalid action ''
                                        @ quoted (py_str a)) result)))"

definition hazard_values :: "nat \<Rightarrow> json list \<Rightarrow> validation_result \<Rightarrow> validation_result" where
  "hazard_values index hazards result =
     foldl (\<lambda>r hazard.
              if in_vocab hazard valid_hazards then r
              else append_warning (''Step '' @ str_nat index @ '': Non-standard hazard ''
                                     @ quoted (py_str hazard)) r)
           result hazards"

definition step_hazards :: "json \<Rightarrow> nat \<Rightarrow> validation_result \<Rightarrow> error + validation_result" where
  "step_hazards step index result =
     and_then (py_contains ''hazards'' step) (\<lambda>has.
       if \<not> has then Inr result
       else and_then (py_getitem step ''hazards'') (\<lambda>h.
              case h of
                JArr hazards \<Rightarrow> Inr (hazard_values index hazards result)
              | _ \<Rightarrow> Inr result))"

definition validate_step :: "json \<Rightarrow> nat \<Rightarrow> validation_result \<Rightarrow> error + validation_result" where
  "validate_step step index result =
     and_then (step_id_format step index result) (\<lambda>result.
     and_then (step_action step index result) (\<lambda>result.
     step_hazards step index result))"

subsection \<open>\<^verbatim>\<open>_validate_references\<close>\<close>

text \<open>The label \<^verbatim>\<open>step.get('step_id', '?')\<close> of a message.\<close>

definition step_label :: "json \<Rightarrow> error + string" where
  "step_label step = and_then (py_get step ''step_id'' (JStr ''?'')) (\<lambda>sid. Inr (py_str sid))"

definition check_target :: "json list \<Rightarrow> json list \<Rightarrow> json \<Rightarrow> json \<Rightarrow> validation_result
                             \<Rightarrow> error + validation_result" where
  "check_target ingredient_ids step_ids step target result =
     (case target of
        JStr t \<Rightarrow>
          if prefix ''ing-'' t \<and> \<not> in_set (JStr t) ingredient_ids then
            and_then (step_label step) (\<lambda>l.
              Inr (append_error (''Step '' @ l @ '': Invalid ingredient reference '' @ quoted t) result))
          else if sublist '':result'' t then
            (let step_ref = takeWhile (\<lambda>c. c \<noteq> CHR '':'') t
             in if \<not> in_set (JStr step_ref) step_ids then
                  and_then (step_label step) (\<lambda>l.
                    Inr (append_error (''Step '' @ l @ '': Invalid step reference '' @ quoted t) result))
                else Inr result)
          else Inr result
      | _ \<Rightarrow> Inr result)"

definition check_step_targets :: "json list \<Rightarrow> json list \<Rightarrow> json \<Rightarrow> validation_result
                                   \<Rightarrow> error + validation_result" where
  "check_step_targets ingredient_ids step_ids step result =
     and_then (py_contains ''target'' step) (\<lambda>has.
       if \<not> has then Inr result
       else and_then (py_getitem step ''target'') (\<lambda>t.
              case t of
                JArr targets \<Rightarrow> for_each (check_target ingredient_ids step_ids step) targets result
              | _ \<Rightarrow> Inr result))"

definition check_device_ref :: "json list \<Rightarrow> json \<Rightarrow> validation_result \<Rightarrow> error + validation_result" where
  "check_device_ref device_ids step result =
     and_then (py_contains ''device_profile_ref'' step) (\<lambda>has.
       if \<not> has then Inr result
       else and_then (py_getitem step ''device_profile_ref'') (\<lambda>ref.
            and_then (set_contains ref device_ids) (\<lambda>known.
              if known then Inr result
              else and_then (step_label step) (\<lambda>l.
                     Inr (append_warning (''Step '' @ l @ '': Unknown device profile ''
                                            @ quoted (py_str ref)) result)))))"

definition validate_references :: "(string \<times> json) list \<Rightarrow> validation_result
                                    \<Rightarrow> error + validation_result" where
  "validate_references recipe result =
     and_then (py_iter (dict_get recipe ''ingredients'' (JArr []))) (\<lambda>ingredients.
     and_then (collect_ids ''id'' ingredients) (\<lambda>ingredient_ids.
     and_then (py_iter (dict_get recipe ''steps'' (JArr []))) (\<lambda>steps.
     and_then (collect_ids ''step_id'' steps) (\<lambda>step_ids.
     and_then (for_each (check_step_targets ingredient_ids step_ids) steps result) (\<lambda>result.
     and_then (py_iter (dict_get recipe ''device_profiles'' (JArr []))) (\<lambda>device_profiles.
     and_then (collect_ids ''id'' device_profiles) (\<lambda>device_ids.
     for_each (check_device_ref device_ids) steps result)))))))"

subsection \<open>\<^verbatim>\<open>_validate_custom_rules\<close>\<close>

definition recipe_id_format :: "(string \<times> json) list \<Rightarrow> validation_result \<Rightarrow> error + validation_result" where
  "recipe_id_format recipe result =
     (case map_of recipe ''id'' of
        None \<Rightarrow> Inr result
      | Some v \<Rightarrow>
          and_then (re_match RECIPE_ID_PATTERN v) (\<lambda>m.
            if m then Inr result
            else Inr (append_error (''Invalid recipe ID format: '' @ py_str v)
                        (result\<lparr>valid := False\<rparr>))))"

definition version_compatibility :: "rcip_validator \<Rightarrow> (string \<times> json) list \<Rightarrow> validation_result
                                      \<Rightarrow> validation_result" where
  "version_compatibility self recipe result =
     (case map_of recipe ''rcip_version'' of
        None \<Rightarrow> result
      | Some v \<Rightarrow>
          if v \<noteq> JStr (schema_version self) then
            append_warning (''Recipe version '' @ py_str v
                              @ '' may not be fully compatible with validator version ''
                              @ schema_version self) result
          else result)"

text \<open>\<^verbatim>\<open>for i, x in enumerate(xs): f(x, i, result)\<close>\<close>

definition for_enumerate :: "(json \<Rightarrow> nat \<Rightarrow> 's \<Rightarrow> error + 's) \<Rightarrow> json list \<Rightarrow> 's \<Rightarrow> error + 's" where
  "for_enumerate f xs s = for_each (\<lambda>ix. f (snd ix) (fst ix)) (enumerate 0 xs) s"

definition validate_custom_rules :: "rcip_validator \<Rightarrow> (string \<times> json) list \<Rightarrow> validation_result
                                      \<Rightarrow> error + validation_result" where
  "validate_custom_rules self recipe result =
     and_then (recipe_id_format recipe result) (\<lambda>result.
     and_then (py_iter (dict_get recipe ''ingredients'' (JArr []))) (\<lambda>ingredients.
     and_then (for_enumerate validate_ingredient ingredients result) (\<lambda>result.
     and_then (py_iter (dict_get recipe ''steps'' (JArr []))) (\<lambda>steps.
     and_then (for_enumerate validate_step steps result) (\<lambda>result.
     and_then (validate_references recipe result) (\<lambda>result.
     Inr (version_compatibility self recipe result)))))))"

subsection \<open>\<^verbatim>\<open>_check_warnings\<close>\<close>

definition warn_if :: "bool \<Rightarrow> string \<Rightarrow> string list \<Rightarrow> string list" where
  "warn_if c m ws = (if c then ws @ [m] else ws)"

text \<open>
  The message for a long cooking time. It is built only when \<^verbatim>\<open>total_time > 1440\<close>
  held, so \<open>total_time\<close> is an int above 1440 there.
\<close>

definition long_time_message :: "json \<Rightarrow> error + string" where
  "long_time_message total_time =
     (case num_val total_time of
        None \<Rightarrow> Inl TypeError
      | Some n \<Rightarrow>
          and_then (div60 n) (\<lambda>hours.
            Inr (''Very long cooking time ('' @ py_str total_time @ '' min / ''
                   @ fmt_1f hours @ '' hours)'')))"

definition has_external_id :: "json \<Rightarrow> error + bool" where
  "has_external_id ing =
     and_then (py_get ing ''external_ids'' (JObj [])) (\<lambda>x. Inr (py_truthy x))"

definition check_warnings :: "(string \<times> json) list \<Rightarrow> error + string list" where
  "check_warnings recipe =
     (let meta = dict_get recipe ''meta'' (JObj []) in
      and_then (py_contains ''description'' meta) (\<lambda>c.
      let ws = warn_if (\<not> c) ''Missing recommended field: meta.description'' [] in
      and_then (py_contains ''servings'' meta) (\<lambda>c.
      let ws = warn_if (\<not> c) ''Missing recommended field: meta.servings'' ws in
      and_then (py_contains ''difficulty'' meta) (\<lambda>c.
      let ws = warn_if (\<not> c) ''Missing recommended field: meta.difficulty'' ws in
      and_then (py_iter (dict_get recipe ''ingredients'' (JArr []))) (\<lambda>ingredients.
      and_then (py_any (py_contains ''nutritional'') ingredients) (\<lambda>has_nutritional.
      let ws = warn_if (\<not> has_nutritional) ''No nutritional data provided for any ingredient'' ws in
      and_then (py_any has_external_id ingredients) (\<lambda>has_external_ids.
      let ws = warn_if (\<not> has_external_ids) ''No external IDs (USDA, GTIN, etc.) provided'' ws in
      let ws = warn_if (py_truthy (dict_get recipe ''device_profiles'' JNull)
                        \<and> \<not> py_truthy (dict_get recipe ''sensors'' JNull))
                 ''Device profiles defined but no sensors specified'' ws in
      and_then (py_get meta ''total_time_minutes'' (JInt 0)) (\<lambda>total_time.
      and_then (py_gt total_time 1440) (\<lambda>long.
      and_then (if long then and_then (long_time_message total_time) (\<lambda>m. Inr (ws @ [m]))
                else Inr ws) (\<lambda>ws.
      Inr (warn_if (\<not> py_truthy (dict_get recipe ''images'' JNull))
             ''No images provided for recipe'' ws)))))))))))"

subsection \<open>\<^verbatim>\<open>_get_recipe_info\<close>\<close>

definition add_allergens :: "json \<Rightarrow> json list \<Rightarrow> error + json list" where
  "add_allergens ingredient allergens =
     and_then (py_get ingredient ''allergens'' (JArr [])) (\<lambda>a.
     and_then (py_iter a) (\<lambda>xs. for_each set_add xs allergens))"

definition get_recipe_info :: "(string \<times> json) list \<Rightarrow> error + (string \<times> json) list" where
  "get_recipe_info recipe =
     (let meta = dict_get recipe ''meta'' (JObj []) in
      and_then (py_iter (dict_get recipe ''ingredients'' (JArr []))) (\<lambda>ingredients.
      and_then (for_each add_allergens ingredients []) (\<lambda>allergens.
      and_then (py_get meta ''name'' (JStr ''Unknown'')) (\<lambda>name.
      and_then (py_get meta ''version'' JNull) (\<lambda>recipe_version.
      and_then (py_len (dict_get recipe ''ingredients'' (JArr []))) (\<lambda>ingredient_count.
      and_then (py_len (dict_get recipe ''steps'' (JArr []))) (\<lambda>step_count.
      and_then (py_sorted allergens) (\<lambda>sorted_allergens.
      and_then (py_get meta ''diet_labels'' (JArr [])) (\<lambda>diet_labels.
      and_then (py_get meta ''difficulty'' (JStr ''not specified'')) (\<lambda>difficulty.
      and_then (py_get meta ''total_time_minutes'' (JStr ''not specified'')) (\<lambda>total_time.
      Inr [(''name'', name),
           (''version'', dict_get recipe ''rcip_version'' JNull),
           (''recipe_version'', recipe_version),
           (''ingredient_count'', JInt ingredient_count),
           (''step_count'', JInt step_count),
           (''has_device_profiles'', JBool (py_truthy (dict_get recipe ''device_profiles'' JNull))),
           (''has_sensors'', JBool (py_truthy (dict_get recipe ''sensors'' JNull))),
           (''allergens'', JArr sorted_allergens),
           (''diet_labels'', diet_labels),
           (''difficulty'', difficulty),
           (''total_time'', total_time)])))))))))))"

subsection \<open>\<^verbatim>\<open>validate_recipe\<close>\<close>

text \<open>
  JSON Schema validation: when the checker reports violations, \<^verbatim>\<open>validate\<close> raises
  the first one, whose message heads the error list, followed by one line for each
  violation \<^verbatim>\<open>iter_errors\<close> yields.
\<close>

definition violation_line :: "violation \<Rightarrow> string" where
  "violation_line e = join '' > '' (map py_str (path e)) @ '': '' @ message e"

definition schema_validation :: "draft7_validator \<Rightarrow> (string \<times> json) list \<Rightarrow> validation_result
                                  \<Rightarrow> validation_result" where
  "schema_validation v recipe result =
     (case v (JObj recipe) of
        [] \<Rightarrow> result
      | e # es \<Rightarrow>
          result\<lparr>valid := False,
                 errors := errors result @ [''Schema validation failed: '' @ message e]
                           @ map violation_line (e # es)\<rparr>)"

definition update_stats :: "bool \<Rightarrow> validation_stats \<Rightarrow> validation_stats" where
  "update_stats ok st =
     (let st = st\<lparr>validated := validated st + 1\<rparr>
      in if ok then st\<lparr>passed := passed st + 1\<rparr> else st\<lparr>failed := failed st + 1\<rparr>)"

definition validate_recipe :: "rcip_validator \<Rightarrow> (string \<times> json) list
                                \<Rightarrow> error + validation_result \<times> rcip_validator" where
  "validate_recipe self recipe =
     (case validator self of
        None \<Rightarrow> Inl RuntimeError
      | Some v \<Rightarrow>
          (let result = fresh;
               result = schema_validation v recipe result
           in and_then (validate_custom_rules self recipe result) (\<lambda>result.
              and_then (check_warnings recipe) (\<lambda>ws.
              let result = result\<lparr>warnings := ws\<rparr> in
              and_then (get_recipe_info recipe) (\<lambda>i.
              let result = result\<lparr>info := i\<rparr> in
              Inr (result, self\<lparr>stats := update_stats (valid result) (stats self)\<rparr>))))))"

subsection \<open>Rule stages\<close>

text \<open>
  Every rule function takes the result object, may refuse (raise), and otherwise appends
  error and warning lines and possibly clears \<^verbatim>\<open>valid\<close>; what it appends does not
  depend on what the object already holds. \<open>emit d r\<close> is \<open>r\<close> after the findings
  \<open>d\<close> were added, and \<open>stage f\<close> says that \<open>f\<close> is of this kind.
\<close>

definition emit :: "validation_result \<Rightarrow> validation_result \<Rightarrow> validation_result" where
  "emit d r = r\<lparr>valid := valid r \<and> valid d,
                errors := errors r @ errors d,
                warnings := warnings r @ warnings d\<rparr>"

definition stage :: "(validation_result \<Rightarrow> error + validation_result) \<Rightarrow> bool" where
  "stage f = (\<forall>r. f r = (case f fresh of Inl e \<Rightarrow> Inl e | Inr d \<Rightarrow> Inr (emit d r)))"

text \<open>
  \<open>holds r d\<close>: the object \<open>r\<close> holds the errors of the findings \<open>d\<close>, and is
  invalid when they are.
\<close>

definition holds :: "validation_result \<Rightarrow> validation_result \<Rightarrow> bool" where
  "holds r d = (set (errors d) \<subseteq> set (errors r) \<and> (valid r \<longrightarrow> valid d))"


subsection \<open>Sessions\<close>

text \<open>
  A session is a validator object and the calls made on it. A call of
  \<^verbatim>\<open>validate_recipe\<close> that raises leaves the object as it was: the counters are
  written in the last statements before \<^verbatim>\<open>return\<close>.
\<close>

datatype call = Validate "(string \<times> json) list" | Reset

fun apply_call :: "rcip_validator \<Rightarrow> call \<Rightarrow> rcip_validator" where
  "apply_call self (Validate recipe) =
     (case validate_recipe self recipe of Inl e \<Rightarrow> self | Inr (result, self') \<Rightarrow> self')"
| "apply_call self Reset = reset_stats self"

definition session :: "rcip_validator \<Rightarrow> call list \<Rightarrow> rcip_validator" where
  "session self calls = foldl apply_call self calls"

definition counted :: "validation_stats \<Rightarrow> bool" where
  "counted st = (validated st = passed st + failed st)"

subsection \<open>Sample documents\<close>

text \<open>A checker for which every document conforms, and a validator initialised with it.\<close>

definition conforming :: draft7_validator where
  "conforming = (\<lambda>doc. [])"

definition ready :: rcip_validator where
  "ready = (RCIPValidator ''0.1'')\<lparr>schema := Some (JObj []), validator := Some conforming\<rparr>"

definition sound_recipe :: "(string \<times> json) list" where
  "sound_recipe =
     [(''id'', JStr ''rcip-0123abcd-0123-4567-89ab-0123456789ab''),
      (''rcip_version'', JStr ''0.1''),
      (''meta'', JObj [(''name'', JStr ''Soup'')]),
      (''ingredients'', JArr [JObj [(''id'', JStr ''ing-1''), (''allergens'', JArr [JStr ''milk''])]]),
      (''steps'', JArr [JObj [(''step_id'', JStr ''s-1''), (''action'', JStr ''mix''),
                              (''target'', JArr [JStr ''ing-1''])]])]"

definition no_allergens :: "(string \<times> json) list" where
  "no_allergens =
     [(''id'', JStr ''rcip-0123abcd-0123-4567-89ab-0123456789ab''),
      (''rcip_version'', JStr ''0.1''),
      (''meta'', JObj [(''name'', JStr ''Soup'')]),
      (''ingredients'', JArr [JObj [(''id'', JStr ''ing-1'')]]),
      (''steps'', JArr [])]"

definition dangling_ingredient :: "(string \<times> json) list" where
  "dangling_ingredient =
     [(''id'', JStr ''rcip-0123abcd-0123-4567-89ab-0123456789ab''),
      (''rcip_version'', JStr ''0.1''),
      (''meta'', JObj [(''name'', JStr ''Soup'')]),
      (''ingredients'', JArr [JObj [(''id'', JStr ''ing-1''), (''allergens'', JArr [JStr ''milk''])]]),
      (''steps'', JArr [JObj [(''step_id'', JStr ''s-1''), (''action'', JStr ''mix''),
                              (''target'', JArr [JStr ''ing-9''])]])]"

definition newer_version :: "(string \<times> json) list" where
  "newer_version =
     [(''id'', JStr ''rcip-0123abcd-0123-4567-89ab-0123456789ab''),
      (''rcip_version'', JStr ''0.2''),
      (''meta'', JObj [(''name'', JStr ''Soup'')]),
      (''ingredients'', JArr [JObj [(''id'', JStr ''ing-1''), (''allergens'', JArr [JStr ''milk''])]]),
      (''steps'', JArr [JObj [(''step_id'', JStr ''s-1''), (''action'', JStr ''mix''),
                              (''target'', JArr [JStr ''ing-1''])]])]"

definition unknown_device :: "(string \<times> json) list" where
  "unknown_device =
     [(''id'', JStr ''rcip-0123abcd-0123-4567-89ab-0123456789ab''),
      (''rcip_version'', JStr ''0.1''),
      (''meta'', JObj [(''name'', JStr ''Soup'')]),
      (''ingredients'', JArr [JObj [(''id'', JStr ''ing-1''), (''allergens'', JArr [JStr ''milk''])]]),
      (''steps'', JArr [JObj [(''step_id'', JStr ''s-1''), (''action'', JStr ''mix''),
                              (''target'', JArr [JStr ''ing-1'']),
                              (''device_profile_ref'', JStr ''oven'')]])]"

definition allergens_text :: "(string \<times> json) list" where
  "allergens_text =
     [(''id'', JStr ''rcip-0123abcd-0123-4567-89ab-0123456789ab''),
      (''rcip_version'', JStr ''0.1''),
      (''meta'', JObj [(''name'', JStr ''Soup'')]),
      (''ingredients'', JArr [JObj [(''id'', JStr ''ing-1''), (''allergens'', JStr ''milk'')]]),
      (''steps'', JArr [])]"


definition slow_recipe :: "(string \<times> json) list" where
  "slow_recipe =
     [(''id'', JStr ''rcip-0123abcd-0123-4567-89ab-0123456789ab''),
      (''rcip_version'', JStr ''0.1''),
      (''meta'', JObj [(''name'', JStr ''Stock''), (''total_time_minutes'', JInt 1500)]),
      (''ingredients'', JArr [JObj [(''id'', JStr ''ing-1''), (''allergens'', JArr [])]]),
      (''steps'', JArr [])]"

text \<open>
  A checker for the schema
  \<^verbatim>\<open>{"properties": {"steps": {"items": {"properties": {"hazards": {"type": "array"}}}}}}\<close>,
  as \<^verbatim>\<open>jsonschema\<close> reports it: one violation for each step that is a dict with a
  \<^verbatim>\<open>hazards\<close> value that is not a list.
\<close>

definition hazards_violation :: "nat \<times> json \<Rightarrow> violation list" where
  "hazards_violation ist =
     (case snd ist of
        JObj step \<Rightarrow>
          (case map_of step ''hazards'' of
             None \<Rightarrow> []
           | Some h \<Rightarrow>
               if is_list h then []
               else [\<lparr>path = [JStr ''steps'', JInt (int (fst ist)), JStr ''hazards''],
                      message = py_repr h @ '' is not of type '' @ quoted ''array''\<rparr>])
      | _ \<Rightarrow> [])"

definition hazards_typed :: draft7_validator where
  "hazards_typed doc =
     (case doc of
        JObj recipe \<Rightarrow>
          (case map_of recipe ''steps'' of
             Some (JArr steps) \<Rightarrow> concat (map hazards_violation (enumerate 0 steps))
           | _ \<Rightarrow> [])
      | _ \<Rightarrow> [])"

definition strict :: rcip_validator where
  "strict = (RCIPValidator ''0.1'')
     \<lparr>schema := Some (JObj [(''properties'', JObj [(''steps'', JObj [(''items'',
                  JObj [(''properties'', JObj [(''hazards'', JObj [(''type'', JStr ''array'')])])])])])]),
      validator := Some hazards_typed\<rparr>"

definition hazards_step :: "(string \<times> json) list" where
  "hazards_step = [(''step_id'', JStr ''s-1''), (''action'', JStr ''mix''),
                   (''target'', JArr [JStr ''ing-1'']), (''hazards'', JStr ''hot'')]"

definition hazards_text :: "(string \<times> json) list" where
  "hazards_text =
     [(''id'', JStr ''rcip-0123abcd-0123-4567-89ab-0123456789ab''),
      (''rcip_version'', JStr ''0.1''),
      (''meta'', JObj [(''name'', JStr ''Soup'')]),
      (''ingredients'', JArr [JObj [(''id'', JStr ''ing-1''), (''allergens'', JArr [JStr ''milk''])]]),
      (''steps'', JArr [JObj hazards_step])]"


text \<open>
  A document whose ingredient has \<^verbatim>\<open>allergens\<close> null, and one whose
  \<^verbatim>\<open>total_time_minutes\<close> is the integer \<open>10^400\<close> (a 1 followed by 400 zeros in the
  JSON text).
\<close>

definition null_allergens :: "(string \<times> json) list" where
  "null_allergens =
     [(''id'', JStr ''rcip-0123abcd-0123-4567-89ab-0123456789ab''),
      (''rcip_version'', JStr ''0.1''),
      (''meta'', JObj [(''name'', JStr ''Soup'')]),
      (''ingredients'', JArr [JObj [(''id'', JStr ''ing-1''), (''allergens'', JNull)]]),
      (''steps'', JArr [])]"

definition endless_recipe :: "(string \<times> json) list" where
  "endless_recipe =
     [(''id'', JStr ''rcip-0123abcd-0123-4567-89ab-0123456789ab''),
      (''rcip_version'', JStr ''0.1''),
      (''meta'', JObj [(''name'', JStr ''Stock''), (''total_time_minutes'', JInt (10 ^ 400))]),
      (''ingredients'', JArr [JObj [(''id'', JStr ''ing-1''), (''allergens'', JArr [])]]),
      (''steps'', JArr [])]"

section \<open>Properties\<close>

subsection \<open>Raising and returning\<close>

lemma and_then_Inr [simp]: "and_then (Inr x) f = f x"
  by (simp add: and_then_def)

lemma and_then_Inl [simp]: "and_then (Inl e) f = Inl e"
  by (simp add: and_then_def)

lemma and_then_eq_Inr: "and_then m f = Inr y \<longleftrightarrow> (\<exists>x. m = Inr x \<and> f x = Inr y)"
  by (cases m) simp_all

text \<open>What a call of \<^verbatim>\<open>validate_recipe\<close> that returns has gone through.\<close>

lemma validate_recipe_Inr:
  "validate_recipe self recipe = Inr (result, self') \<longleftrightarrow>
     (\<exists>v r ws i. validator self = Some v
        \<and> validate_custom_rules self recipe
             (schema_validation v recipe fresh) = Inr r
        \<and> check_warnings recipe = Inr ws
        \<and> get_recipe_info recipe = Inr i
        \<and> result = r\<lparr>warnings := ws, info := i\<rparr>
        \<and> self' = self\<lparr>stats := update_stats (valid r) (stats self)\<rparr>)"
  by (auto simp: validate_recipe_def and_then_eq_Inr Let_def split: option.splits)

subsection \<open>The counters\<close>

lemma validate_recipe_stats:
  assumes "validate_recipe self recipe = Inr (result, self')"
  shows "stats self' = update_stats (valid result) (stats self)"
proof -
  from assms obtain r ws i where "result = r\<lparr>warnings := ws, info := i\<rparr>"
    and "self' = self\<lparr>stats := update_stats (valid r) (stats self)\<rparr>"
    unfolding validate_recipe_Inr by blast
  then show ?thesis by simp
qed

lemma counted_update: "counted st \<Longrightarrow> counted (update_stats ok st)"
  by (simp add: counted_def update_stats_def Let_def)

lemma counted_apply_call: "counted (stats self) \<Longrightarrow> counted (stats (apply_call self c))"
proof (cases c)
  case (Validate recipe)
  assume c: "counted (stats self)"
  show ?thesis
  proof (cases "validate_recipe self recipe")
    case (Inl e)
    with Validate c show ?thesis by simp
  next
    case (Inr p)
    obtain result self' where p: "p = (result, self')" by (cases p)
    from Inr p have "stats self' = update_stats (valid result) (stats self)"
      by (simp add: validate_recipe_stats)
    with Validate Inr p c show ?thesis by (simp add: counted_update)
  qed
next
  case Reset
  then show ?thesis by (simp add: reset_stats_def counted_def)
qed

lemma counted_session: "counted (stats self) \<Longrightarrow> counted (stats (session self calls))"
  unfolding session_def
  by (induction calls arbitrary: self) (simp_all add: counted_apply_call)

lemma init_stats: "init file draft7 self = Inr self' \<Longrightarrow> stats self' = stats self"
  by (auto simp: init_def split: sum.splits)

text \<open>
  C9. On a validator that \<^verbatim>\<open>init\<close> has initialised, after any sequence of
  \<^verbatim>\<open>validate_recipe\<close> and \<^verbatim>\<open>reset_stats\<close> calls,
  \<open>validated = passed + failed\<close>. A call of \<^verbatim>\<open>validate_recipe\<close> that returns adds
  one to \<open>validated\<close> and one to \<open>passed\<close> when the result is valid, to \<open>failed\<close>
  otherwise; a call that raises changes nothing; \<^verbatim>\<open>reset_stats\<close> zeroes the three
  counters; \<^verbatim>\<open>init\<close> leaves them.
\<close>

theorem stats_invariant:
  assumes "init file draft7 (RCIPValidator version) = Inr self0"
  shows "validated (stats (session self0 calls))
           = passed (stats (session self0 calls)) + failed (stats (session self0 calls))
         \<and> (validate_recipe self recipe = Inr (result, self') \<longrightarrow>
              validated (stats self') = validated (stats self) + 1
              \<and> passed (stats self') = passed (stats self) + (if valid result then 1 else 0)
              \<and> failed (stats self') = failed (stats self) + (if valid result then 0 else 1))
         \<and> (validate_recipe self recipe = Inl e \<longrightarrow> apply_call self (Validate recipe) = self)
         \<and> stats (reset_stats self) = \<lparr>validated = 0, passed = 0, failed = 0\<rparr>
         \<and> stats self0 = stats (RCIPValidator version)"
proof -
  from assms have s0: "stats self0 = stats (RCIPValidator version)"
    by (simp add: init_stats)
  then have "counted (stats self0)"
    by (simp add: RCIPValidator_def counted_def)
  then have "counted (stats (session self0 calls))"
    by (rule counted_session)
  moreover have "validate_recipe self recipe = Inr (result, self') \<longrightarrow>
              validated (stats self') = validated (stats self) + 1
              \<and> passed (stats self') = passed (stats self) + (if valid result then 1 else 0)
              \<and> failed (stats self') = failed (stats self) + (if valid result then 0 else 1)"
    by (simp add: validate_recipe_stats update_stats_def Let_def)
  ultimately show ?thesis
    using s0 by (simp add: counted_def reset_stats_def)
qed

lemma sound_recipe_passes:
  "map_sum id (\<lambda>p. (valid (fst p), stats (snd p))) (validate_recipe ready sound_recipe)
     = Inr (True, \<lparr>validated = 1, passed = 1, failed = 0\<rparr>)"
  by code_simp

theorem stats_invariant_witness:
  "init (Inr (JObj [])) (\<lambda>s. conforming) (RCIPValidator ''0.1'') = Inr ready
   \<and> stats (session ready [Validate sound_recipe, Validate no_allergens, Reset, Validate no_allergens])
       = \<lparr>validated = 1, passed = 0, failed = 1\<rparr>
   \<and> validated (stats (session ready [Validate sound_recipe, Validate no_allergens, Validate no_allergens]))
       = passed (stats (session ready [Validate sound_recipe, Validate no_allergens, Validate no_allergens]))
         + failed (stats (session ready [Validate sound_recipe, Validate no_allergens, Validate no_allergens]))
   \<and> (\<exists>result self'. validate_recipe ready sound_recipe = Inr (result, self') \<and> valid result
         \<and> validated (stats self') = 1 \<and> passed (stats self') = 1 \<and> failed (stats self') = 0)
   \<and> validate_recipe (RCIPValidator ''0.1'') sound_recipe = Inl RuntimeError
   \<and> apply_call (RCIPValidator ''0.1'') (Validate sound_recipe) = RCIPValidator ''0.1''"
proof -
  have h: "init (Inr (JObj [])) (\<lambda>s. conforming) (RCIPValidator ''0.1'') = Inr ready"
    by (simp add: init_def ready_def)
  have r: "stats (session ready [Validate sound_recipe, Validate no_allergens, Reset, Validate no_allergens])
             = \<lparr>validated = 1, passed = 0, failed = 1\<rparr>"
    by code_simp
  have e: "validate_recipe (RCIPValidator ''0.1'') sound_recipe = Inl RuntimeError"
    by (simp add: validate_recipe_def RCIPValidator_def)
  obtain result self' where v: "validate_recipe ready sound_recipe = Inr (result, self')"
    and ok: "valid result"
    using sound_recipe_passes by (cases "validate_recipe ready sound_recipe") auto
  have z: "stats ready = \<lparr>validated = 0, passed = 0, failed = 0\<rparr>"
    by (simp add: ready_def RCIPValidator_def)
  note t = stats_invariant [OF h, of _ _ _ _ _ RuntimeError]
  from t [of "[Validate sound_recipe, Validate no_allergens, Validate no_allergens]"]
  have c: "validated (stats (session ready [Validate sound_recipe, Validate no_allergens, Validate no_allergens]))
       = passed (stats (session ready [Validate sound_recipe, Validate no_allergens, Validate no_allergens]))
         + failed (stats (session ready [Validate sound_recipe, Validate no_allergens, Validate no_allergens]))"
    by blast
  from t [of "[]" ready sound_recipe result self'] v ok z
  have s: "validated (stats self') = 1 \<and> passed (stats self') = 1 \<and> failed (stats self') = 0"
    by simp
  from t [of "[]" "RCIPValidator ''0.1''" sound_recipe result self'] e
  have a: "apply_call (RCIPValidator ''0.1'') (Validate sound_recipe) = RCIPValidator ''0.1''"
    by blast
  from h r c v ok s e a show ?thesis by blast
qed

subsection \<open>Calling twice\<close>

lemma version_compatibility_stats:
  "version_compatibility (self\<lparr>stats := st\<rparr>) recipe result = version_compatibility self recipe result"
  by (simp add: version_compatibility_def split: option.splits)

lemma custom_rules_stats:
  "validate_custom_rules (self\<lparr>stats := st\<rparr>) recipe result = validate_custom_rules self recipe result"
  by (simp add: validate_custom_rules_def version_compatibility_stats)

text \<open>
  C8. When \<^verbatim>\<open>validate_recipe\<close> returns for a document, a second call on the same
  document with the validator as the first call left it returns too, with the same
  errors, warnings and info; each call changes nothing of the validator but
  \<^verbatim>\<open>stats\<close>.
\<close>

theorem validate_recipe_idempotent:
  assumes "validate_recipe self recipe = Inr (r1, self1)"
  shows "\<exists>r2 self2. validate_recipe self1 recipe = Inr (r2, self2)
           \<and> errors r2 = errors r1 \<and> warnings r2 = warnings r1 \<and> info r2 = info r1
           \<and> self1 = self\<lparr>stats := stats self1\<rparr> \<and> self2 = self1\<lparr>stats := stats self2\<rparr>"
proof -
  from assms obtain v r ws i where
    v: "validator self = Some v" and
    r: "validate_custom_rules self recipe
          (schema_validation v recipe fresh) = Inr r" and
    ws: "check_warnings recipe = Inr ws" and
    i: "get_recipe_info recipe = Inr i" and
    r1: "r1 = r\<lparr>warnings := ws, info := i\<rparr>" and
    self1: "self1 = self\<lparr>stats := update_stats (valid r) (stats self)\<rparr>"
    by (auto simp: validate_recipe_Inr)
  let ?self2 = "self1\<lparr>stats := update_stats (valid r) (stats self1)\<rparr>"
  have "validate_recipe self1 recipe = Inr (r1, ?self2)"
    unfolding validate_recipe_Inr using v r ws i r1 self1
    by (simp add: custom_rules_stats)
  moreover have "self1 = self\<lparr>stats := stats self1\<rparr>"
    using self1 by simp
  ultimately show ?thesis by auto
qed

theorem validate_recipe_idempotent_witness:
  "\<exists>r1 self1 r2 self2.
     validate_recipe ready no_allergens = Inr (r1, self1)
     \<and> validate_recipe self1 no_allergens = Inr (r2, self2)
     \<and> errors r2 = errors r1 \<and> warnings r2 = warnings r1 \<and> info r2 = info r1
     \<and> errors r1 = [''Ingredient 0: Missing required allergens field'']
     \<and> stats self1 = \<lparr>validated = 1, passed = 0, failed = 1\<rparr>
     \<and> stats self2 = \<lparr>validated = 2, passed = 0, failed = 2\<rparr>"
proof -
  have "map_sum id (\<lambda>p. (errors (fst p), stats (snd p))) (validate_recipe ready no_allergens)
          = Inr ([''Ingredient 0: Missing required allergens field''],
                 \<lparr>validated = 1, passed = 0, failed = 1\<rparr>)"
    by code_simp
  then obtain r1 self1 where 1: "validate_recipe ready no_allergens = Inr (r1, self1)"
    and e: "errors r1 = [''Ingredient 0: Missing required allergens field'']"
    and s1: "stats self1 = \<lparr>validated = 1, passed = 0, failed = 1\<rparr>"
    by (cases "validate_recipe ready no_allergens") auto
  from validate_recipe_idempotent [OF 1] obtain r2 self2 where
    2: "validate_recipe self1 no_allergens = Inr (r2, self2)" and
    same: "errors r2 = errors r1" "warnings r2 = warnings r1" "info r2 = info r1"
    by blast
  have "stats self2 = update_stats (valid r2) (stats self1)"
    using 2 by (rule validate_recipe_stats)
  moreover have "\<not> valid r1"
    using 1 s1 validate_recipe_stats [OF 1]
    by (cases "valid r1") (simp_all add: update_stats_def Let_def ready_def RCIPValidator_def)
  moreover have "valid r2 = valid r1"
  proof -
    from 1 2 obtain ra rb wa wb ia ib va vb where
      a: "r1 = ra\<lparr>warnings := wa, info := ia\<rparr>" "validator ready = Some va"
         "validate_custom_rules ready no_allergens
            (schema_validation va no_allergens fresh) = Inr ra"
         "self1 = ready\<lparr>stats := update_stats (valid ra) (stats ready)\<rparr>" and
      b: "r2 = rb\<lparr>warnings := wb, info := ib\<rparr>" "validator self1 = Some vb"
         "validate_custom_rules self1 no_allergens
            (schema_validation vb no_allergens fresh) = Inr rb"
      unfolding validate_recipe_Inr by blast
    from a b have "rb = ra" by (simp add: custom_rules_stats)
    with a b show ?thesis by simp
  qed
  ultimately have "stats self2 = \<lparr>validated = 2, passed = 0, failed = 2\<rparr>"
    using s1 by (simp add: update_stats_def Let_def)
  with 1 2 same e s1 show ?thesis by blast
qed

subsection \<open>Findings that do not reach the result\<close>

text \<open>
  C1. The claim fails on \<open>dangling_ingredient\<close>, whose only step names an ingredient
  that is not declared: the reference check appends its error without clearing
  \<^verbatim>\<open>valid\<close>, and the result is valid with one error.
\<close>

theorem valid_with_errors:
  "\<exists>result self'. validate_recipe ready dangling_ingredient = Inr (result, self')
     \<and> valid result
     \<and> errors result = [''Step s-1: Invalid ingredient reference '' @ quoted ''ing-9'']"
proof -
  have "map_sum id (\<lambda>p. (valid (fst p), errors (fst p))) (validate_recipe ready dangling_ingredient)
          = Inr (True, [''Step s-1: Invalid ingredient reference '' @ quoted ''ing-9''])"
    by code_simp
  then show ?thesis
    by (cases "validate_recipe ready dangling_ingredient") auto
qed

text \<open>
  C2. The claim fails on \<open>newer_version\<close>, which declares version 0.2 to a validator
  configured for 0.1: \<^verbatim>\<open>_validate_custom_rules\<close> appends the compatibility warning,
  and \<^verbatim>\<open>validate_recipe\<close> then assigns the list of \<^verbatim>\<open>_check_warnings\<close> to
  \<^verbatim>\<open>result.warnings\<close>, so the warning is not in the result.
\<close>

theorem version_warning_lost:
  "\<exists>result self'. validate_recipe ready newer_version = Inr (result, self')
     \<and> valid result
     \<and> warnings result =
         [''Missing recommended field: meta.description'',
          ''Missing recommended field: meta.servings'',
          ''Missing recommended field: meta.difficulty'',
          ''No nutritional data provided for any ingredient'',
          ''No external IDs (USDA, GTIN, etc.) provided'',
          ''No images provided for recipe'']
     \<and> map_sum id warnings (validate_custom_rules ready newer_version fresh)
         = Inr [''Recipe version 0.2 may not be fully compatible with validator version 0.1'']"
proof -
  have "map_sum id (\<lambda>p. (valid (fst p), warnings (fst p))) (validate_recipe ready newer_version)
          = Inr (True,
                 [''Missing recommended field: meta.description'',
                  ''Missing recommended field: meta.servings'',
                  ''Missing recommended field: meta.difficulty'',
                  ''No nutritional data provided for any ingredient'',
                  ''No external IDs (USDA, GTIN, etc.) provided'',
                  ''No images provided for recipe''])"
    by code_simp
  moreover have "map_sum id warnings (validate_custom_rules ready newer_version fresh)
         = Inr [''Recipe version 0.2 may not be fully compatible with validator version 0.1'']"
    by code_simp
  ultimately show ?thesis
    by (cases "validate_recipe ready newer_version") auto
qed

text \<open>
  C3. The claim fails on \<open>unknown_device\<close>, whose step refers to the device profile
  \<^verbatim>\<open>oven\<close> while the document declares none: the reference check appends its
  warning (and no error), and the warning is lost in the same assignment.
\<close>

theorem device_warning_lost:
  "\<exists>result self'. validate_recipe ready unknown_device = Inr (result, self')
     \<and> errors result = []
     \<and> warnings result =
         [''Missing recommended field: meta.description'',
          ''Missing recommended field: meta.servings'',
          ''Missing recommended field: meta.difficulty'',
          ''No nutritional data provided for any ingredient'',
          ''No external IDs (USDA, GTIN, etc.) provided'',
          ''No images provided for recipe'']
     \<and> map_sum id warnings (validate_custom_rules ready unknown_device fresh)
         = Inr [''Step s-1: Unknown device profile '' @ quoted ''oven'']"
proof -
  have "map_sum id (\<lambda>p. (errors (fst p), warnings (fst p))) (validate_recipe ready unknown_device)
          = Inr ([],
                 [''Missing recommended field: meta.description'',
                  ''Missing recommended field: meta.servings'',
                  ''Missing recommended field: meta.difficulty'',
                  ''No nutritional data provided for any ingredient'',
                  ''No external IDs (USDA, GTIN, etc.) provided'',
                  ''No images provided for recipe''])"
    by code_simp
  moreover have "map_sum id warnings (validate_custom_rules ready unknown_device fresh)
         = Inr [''Step s-1: Unknown device profile '' @ quoted ''oven'']"
    by code_simp
  ultimately show ?thesis
    by (cases "validate_recipe ready unknown_device") auto
qed

subsection \<open>Rule stages\<close>
lemma emit_fresh [simp]: "emit fresh r = r"
  by (simp add: emit_def fresh_def)

lemma emit_assoc: "emit d (emit c r) = emit (emit d c) r"
  by (simp add: emit_def)

lemma emit_simps [simp]:
  "valid (emit d r) = (valid r \<and> valid d)"
  "errors (emit d r) = errors r @ errors d"
  "warnings (emit d r) = warnings r @ warnings d"
  "info (emit d r) = info r"
  by (simp_all add: emit_def)

text \<open>A stage is a refusal or an emission, the same for every object.\<close>

lemma stageI_Inl: "(\<And>r. f r = Inl e) \<Longrightarrow> stage f"
  by (simp add: stage_def)

lemma stageI_emit:
  assumes "\<And>r. f r = Inr (emit d r)"
  shows "stage f"
proof -
  have "emit (emit d fresh) r = emit d r" for r
    by (simp add: emit_def fresh_def)
  with assms show ?thesis by (simp add: stage_def)
qed

lemma stage_cases:
  assumes "stage f"
  obtains (refuse) e where "\<And>r. f r = Inl e"
        | (emit) d where "\<And>r. f r = Inr (emit d r)"
proof (cases "f fresh")
  case (Inl e)
  with assms have "f r = Inl e" for r
    unfolding stage_def by (metis sum.simps(5))
  then show ?thesis by (rule refuse)
next
  case (Inr d)
  with assms have "f r = Inr (emit d r)" for r
    unfolding stage_def by (metis sum.simps(6))
  then show ?thesis by (rule emit)
qed

lemma stage_Inr [simp]: "stage Inr"
  by (rule stageI_emit [where d = fresh]) simp

lemma stage_id [simp]: "stage (\<lambda>r. Inr r)"
  by (rule stageI_emit [where d = fresh]) simp

lemma stage_error [simp]: "stage (\<lambda>r. Inr (append_error m r))"
  by (rule stageI_emit [where d = "append_error m fresh"])
     (simp add: emit_def append_error_def fresh_def)

lemma stage_fatal [simp]: "stage (\<lambda>r. Inr (append_error m (r\<lparr>valid := False\<rparr>)))"
  by (rule stageI_emit [where d = "append_error m (fresh\<lparr>valid := False\<rparr>)"])
     (simp add: emit_def append_error_def fresh_def)

lemma stage_warning [simp]: "stage (\<lambda>r. Inr (append_warning m r))"
  by (rule stageI_emit [where d = "append_warning m fresh"])
     (simp add: emit_def append_warning_def fresh_def)

lemma stage_Inl [simp]: "stage (\<lambda>r. Inl e)"
  by (rule stageI_Inl) simp

lemma stage_seq:
  assumes "stage f" and "stage g"
  shows "stage (\<lambda>r. and_then (f r) g)"
  using assms(1)
proof (cases rule: stage_cases)
  case (refuse e)
  then show ?thesis by (simp add: stageI_Inl [where e = e])
next
  case f: (emit d)
  from assms(2) show ?thesis
  proof (cases rule: stage_cases)
    case (refuse e)
    with f show ?thesis by (simp add: stageI_Inl [where e = e])
  next
    case (emit c)
    with f show ?thesis
      by (simp add: stageI_emit [where d = "emit c d"] emit_assoc)
  qed
qed

lemma stage_bind:
  assumes "\<And>x. stage (g x)"
  shows "stage (\<lambda>r. and_then m (\<lambda>x. g x r))"
  using assms by (cases m) simp_all

lemma stage_if:
  "(c \<Longrightarrow> stage f) \<Longrightarrow> (\<not> c \<Longrightarrow> stage g) \<Longrightarrow> stage (\<lambda>r. if c then f r else g r)"
  by (cases c) simp_all

lemma stage_for_each:
  assumes "\<And>x. x \<in> set xs \<Longrightarrow> stage (f x)"
  shows "stage (for_each f xs)"
  using assms
proof (induction xs)
  case Nil
  have "for_each f [] = Inr" by (rule ext) simp
  then show ?case by simp
next
  case (Cons x xs)
  have "for_each f (x # xs) = (\<lambda>r. and_then (f x r) (for_each f xs))"
    by (rule ext) simp
  with Cons show ?case by (simp add: stage_seq)
qed

lemma stage_foldl:
  assumes "\<And>x. stage (\<lambda>r. Inr (g r x))"
  shows "stage (\<lambda>r. Inr (foldl g r xs))"
proof (induction xs rule: rev_induct)
  case Nil
  then show ?case by simp
next
  case (snoc x xs)
  have "(\<lambda>r. Inr (foldl g r (xs @ [x]))) = (\<lambda>r. and_then (Inr (foldl g r xs)) (\<lambda>r. Inr (g r x)))"
    by (rule ext) simp
  with snoc assms show ?case by (simp only: stage_seq)
qed

text \<open>What a stage that returned has done to the object.\<close>

lemma stage_emits:
  assumes "stage f" and "f r = Inr r'"
  obtains d where "\<And>s. f s = Inr (emit d s)" and "r' = emit d r"
  using assms(1)
proof (cases rule: stage_cases)
  case (refuse e)
  with assms(2) show ?thesis by simp
next
  case (emit d)
  with assms(2) that show ?thesis by simp
qed

text \<open>Every rule function is a stage.\<close>
lemma stage_eqI: "(\<And>r. f r = g r) \<Longrightarrow> stage g \<Longrightarrow> stage f"
proof -
  assume "\<And>r. f r = g r"
  then have "f = g" by (rule ext)
  then show "stage g \<Longrightarrow> stage f" by simp
qed

lemma stage_case_json:
  assumes "\<And>xs. a = JArr xs \<Longrightarrow> stage (f xs)" and "\<not> is_list a \<Longrightarrow> stage g"
  shows "stage (\<lambda>r. case a of JArr xs \<Rightarrow> f xs r | _ \<Rightarrow> g r)"
  using assms by (cases a) simp_all

lemma stage_case_str:
  assumes "\<And>s. a = JStr s \<Longrightarrow> stage (f s)" and "\<not> is_str a \<Longrightarrow> stage g"
  shows "stage (\<lambda>r. case a of JStr s \<Rightarrow> f s r | _ \<Rightarrow> g r)"
  using assms by (cases a) simp_all

lemma stage_case_option:
  assumes "a = None \<Longrightarrow> stage g" and "\<And>x. a = Some x \<Longrightarrow> stage (f x)"
  shows "stage (\<lambda>r. case a of None \<Rightarrow> g r | Some x \<Rightarrow> f x r)"
  using assms by (cases a) simp_all

lemma stage_Inr_if:
  assumes "stage (\<lambda>r. Inr (h r))"
  shows "stage (\<lambda>r. Inr (if c then r else h r))"
  using assms by (cases c) simp_all

lemma stage_let: "stage (f v) \<Longrightarrow> stage (\<lambda>r. let x = v in f x r)"
  by simp

lemmas stage_intros =
  stage_bind stage_if stage_case_json stage_case_str stage_case_option stage_let
  stage_id stage_error stage_fatal stage_warning stage_Inl

lemma stage_ingredient_id_format: "stage (ingredient_id_format ing i)"
  by (rule stage_eqI [OF ingredient_id_format_def]) (intro stage_intros)

lemma stage_allergen_values: "stage (\<lambda>r. Inr (allergen_values i xs r))"
  unfolding allergen_values_def
  by (intro stage_foldl stage_Inr_if stage_error)

lemma stage_ingredient_allergens: "stage (ingredient_allergens ing i)"
  by (rule stage_eqI [OF ingredient_allergens_def])
     (intro stage_intros stage_allergen_values)

lemma stage_ingredient_machine_amount: "stage (ingredient_machine_amount ing i)"
proof (rule stage_eqI [OF ingredient_machine_amount_def], intro stage_intros)
  fix has ma bad
  let ?m = "''Ingredient '' @ str_nat i @ '': machine_amount.value must be non-negative number''"
  have 1: "stage (\<lambda>r. Inr (if bad then append_error ?m r else r))"
    by (cases bad) simp_all
  have 2: "stage (\<lambda>r. and_then (py_contains ''unit'' ma) (\<lambda>has_unit.
             if \<not> has_unit then Inr (append_error (''Ingredient '' @ str_nat i
                                        @ '': machine_amount.unit is required'') r)
             else and_then (py_getitem ma ''unit'') (\<lambda>u.
                    if in_vocab u Unit_values then Inr r
                    else Inr (append_warning (''Ingredient '' @ str_nat i
                                @ '': Non-standard unit '' @ quoted (py_str u)) r))))"
    by (intro stage_intros)
  from stage_seq [OF 1 2]
  show "stage (\<lambda>r. let result = if bad then append_error ?m r else r
                    in and_then (py_contains ''unit'' ma) (\<lambda>has_unit.
                 if \<not> has_unit then
                   Inr (append_error (''Ingredient '' @ str_nat i
                                        @ '': machine_amount.unit is required'') result)
                 else and_then (py_getitem ma ''unit'') (\<lambda>u.
                        if in_vocab u Unit_values then Inr result
                        else Inr (append_warning (''Ingredient '' @ str_nat i
                                    @ '': Non-standard unit '' @ quoted (py_str u)) result))))"
    by (simp add: Let_def)
qed

lemma stage_validate_ingredient: "stage (validate_ingredient ing i)"
  by (rule stage_eqI [OF validate_ingredient_def])
     (intro stage_seq stage_ingredient_id_format stage_ingredient_allergens
        stage_ingredient_machine_amount)

lemma stage_step_id_format: "stage (step_id_format step i)"
  by (rule stage_eqI [OF step_id_format_def]) (intro stage_intros)

lemma stage_step_action: "stage (step_action step i)"
  by (rule stage_eqI [OF step_action_def]) (intro stage_intros)

lemma stage_hazard_values: "stage (\<lambda>r. Inr (hazard_values i xs r))"
  unfolding hazard_values_def
  by (intro stage_foldl stage_Inr_if stage_warning)

lemma stage_step_hazards: "stage (step_hazards step i)"
  by (rule stage_eqI [OF step_hazards_def]) (intro stage_intros stage_hazard_values)

lemma stage_validate_step: "stage (validate_step step i)"
  by (rule stage_eqI [OF validate_step_def])
     (intro stage_seq stage_step_id_format stage_step_action stage_step_hazards)

lemma stage_check_target: "stage (check_target iids sids step target)"
  by (rule stage_eqI [OF check_target_def]) (intro stage_intros)

lemma stage_check_step_targets: "stage (check_step_targets iids sids step)"
  by (rule stage_eqI [OF check_step_targets_def])
     (intro stage_intros stage_for_each stage_check_target)

lemma stage_check_device_ref: "stage (check_device_ref dids step)"
  by (rule stage_eqI [OF check_device_ref_def]) (intro stage_intros)

lemma stage_validate_references: "stage (validate_references recipe)"
  by (rule stage_eqI [OF validate_references_def])
     (intro stage_bind stage_seq stage_for_each stage_check_step_targets stage_check_device_ref)



lemma stage_for_enumerate:
  assumes "\<And>x i. stage (f x i)"
  shows "stage (for_enumerate f xs)"
  by (rule stage_eqI [OF for_enumerate_def]) (intro stage_for_each assms)


subsection \<open>Findings that reach the result\<close>
lemma stage_emits_ex:
  assumes "stage f" and "f r = Inr r'"
  shows "\<exists>d. (\<forall>s. f s = Inr (emit d s)) \<and> r' = emit d r"
  using assms by (auto elim!: stage_emits)

lemma stage_keeps:
  assumes "stage f" and "f r = Inr r'"
  shows "set (errors r) \<subseteq> set (errors r')" and "valid r' \<Longrightarrow> valid r"
  using stage_emits_ex [OF assms] by auto

lemma holds_trans: "holds r d \<Longrightarrow> set (errors r) \<subseteq> set (errors r') \<Longrightarrow> (valid r' \<Longrightarrow> valid r)
                    \<Longrightarrow> holds r' d"
  by (auto simp: holds_def)

lemma stage_findings:
  assumes "stage f" and "f r = Inr r'"
  shows "\<exists>d. f fresh = Inr d \<and> holds r' d"
proof -
  from stage_emits_ex [OF assms] obtain d where
    d: "\<forall>s. f s = Inr (emit d s)" and r': "r' = emit d r"
    by blast
  have "f fresh = Inr (emit d fresh)" using d by simp
  moreover have "holds r' (emit d fresh)"
    using r' by (simp add: fresh_def holds_def)
  ultimately show ?thesis by blast
qed

lemma for_each_findings:
  assumes st: "\<And>x. stage (f x)" and run: "for_each f xs r = Inr r'" and x: "x \<in> set xs"
  shows "\<exists>d. f x fresh = Inr d \<and> holds r' d"
  using run x
proof (induction xs arbitrary: r)
  case Nil
  then show ?case by simp
next
  case (Cons y ys)
  from Cons.prems(1) obtain r1 where y: "f y r = Inr r1" and ys: "for_each f ys r1 = Inr r'"
    by (auto simp: and_then_eq_Inr)
  show ?case
  proof (cases "x = y")
    case True
    from stage_findings [OF st y] obtain d where d: "f y fresh = Inr d" "holds r1 d"
      by blast
    have "stage (for_each f ys)" by (rule stage_for_each) (rule st)
    from stage_keeps [OF this ys] d(2) have "holds r' d" by (rule holds_trans [rotated])
    with d(1) True show ?thesis by blast
  next
    case False
    with Cons.prems(2) have "x \<in> set ys" by simp
    with Cons.IH ys show ?thesis by blast
  qed
qed

lemma for_enumerate_findings:
  assumes st: "\<And>x i. stage (f x i)" and run: "for_enumerate f xs r = Inr r'" and i: "i < length xs"
  shows "\<exists>d. f (xs ! i) i fresh = Inr d \<and> holds r' d"
proof -
  from i have mem: "(i, xs ! i) \<in> set (enumerate 0 xs)"
    by (simp add: in_set_enumerate_eq)
  from run have run': "for_each (\<lambda>ix. f (snd ix) (fst ix)) (enumerate 0 xs) r = Inr r'"
    by (simp add: for_enumerate_def)
  have "\<exists>d. (\<lambda>ix. f (snd ix) (fst ix)) (i, xs ! i) fresh = Inr d \<and> holds r' d"
    by (rule for_each_findings [OF _ run' mem]) (rule st)
  then show ?thesis by simp
qed

text \<open>The stations of \<^verbatim>\<open>_validate_custom_rules\<close>.\<close>

lemma custom_rules_Inr:
  assumes "validate_custom_rules self recipe r0 = Inr r"
  shows "\<exists>r1 ingredients r2 steps r3 r4.
    recipe_id_format recipe r0 = Inr r1
    \<and> py_iter (dict_get recipe ''ingredients'' (JArr [])) = Inr ingredients
    \<and> for_enumerate validate_ingredient ingredients r1 = Inr r2
    \<and> py_iter (dict_get recipe ''steps'' (JArr [])) = Inr steps
    \<and> for_enumerate validate_step steps r2 = Inr r3
    \<and> validate_references recipe r3 = Inr r4
    \<and> r = version_compatibility self recipe r4"
  using assms unfolding validate_custom_rules_def and_then_eq_Inr by blast

lemma version_keeps:
  "errors (version_compatibility self recipe r) = errors r"
  "valid (version_compatibility self recipe r) = valid r"
  by (simp_all add: version_compatibility_def append_warning_def split: option.splits)

lemma custom_rules_ingredient:
  assumes run: "validate_custom_rules self recipe r0 = Inr r"
    and ings: "py_iter (dict_get recipe ''ingredients'' (JArr [])) = Inr ingredients"
    and i: "i < length ingredients"
  shows "\<exists>d. validate_ingredient (ingredients ! i) i fresh = Inr d \<and> holds r d"
proof -
  from custom_rules_Inr [OF run] ings obtain r1 r2 steps r3 r4 where
    2: "for_enumerate validate_ingredient ingredients r1 = Inr r2" and
    3: "for_enumerate validate_step steps r2 = Inr r3" and
    4: "validate_references recipe r3 = Inr r4" and
    r: "r = version_compatibility self recipe r4"
    by auto
  from for_enumerate_findings [OF stage_validate_ingredient 2 i] obtain d where
    d: "validate_ingredient (ingredients ! i) i fresh = Inr d" "holds r2 d"
    by blast
  note k3 = stage_keeps [OF stage_for_enumerate 3, OF stage_validate_step]
  note k4 = stage_keeps [OF stage_validate_references 4]
  from d(2) k3 k4 r have "holds r d"
    by (auto simp: version_keeps holds_def)
  with d(1) show ?thesis by blast
qed

lemma validate_recipe_custom:
  assumes "validate_recipe self recipe = Inr (result, self')"
  shows "\<exists>v r. validator self = Some v
    \<and> validate_custom_rules self recipe (schema_validation v recipe fresh) = Inr r
    \<and> errors result = errors r \<and> valid result = valid r
    \<and> check_warnings recipe = Inr (warnings result)
    \<and> get_recipe_info recipe = Inr (info result)"
  using assms unfolding validate_recipe_Inr by auto

text \<open>Membership in a dict, by lookup.\<close>

lemma contains_JObj [simp]:
  "py_contains k (JObj kvs) = Inr (map_of kvs k \<noteq> None)"
  by (simp add: map_of_eq_None_iff)

declare py_contains.simps(1) [simp del]

lemma allergens_absent:
  assumes "map_of ingredient ''allergens'' = None"
  shows "ingredient_allergens (JObj ingredient) i r =
           Inr (append_error (''Ingredient '' @ str_nat i @ '': Missing required allergens field'')
                  (r\<lparr>valid := False\<rparr>))"
  using assms by (simp add: ingredient_allergens_def)

lemma allergens_not_list:
  assumes "map_of ingredient ''allergens'' = Some a" and "\<not> is_list a"
  shows "ingredient_allergens (JObj ingredient) i r =
           Inr (append_error (''Ingredient '' @ str_nat i @ '': allergens must be an array'')
                  (r\<lparr>valid := False\<rparr>))"
  using assms by (cases a) (simp_all add: ingredient_allergens_def)

text \<open>
  Where \<^verbatim>\<open>validate_recipe\<close> returns for a document whose ingredient at position
  \<open>i\<close> has no \<^verbatim>\<open>allergens\<close> field, or one that is not a list, the result is
  invalid and its errors hold the line of that ingredient.
\<close>

lemma missing_allergens_invalid:
  assumes run: "validate_recipe self recipe = Inr (result, self')"
    and ings: "map_of recipe ''ingredients'' = Some (JArr ingredients)"
    and i: "i < length ingredients"
    and ing: "ingredients ! i = JObj ingredient"
    and a: "map_of ingredient ''allergens'' = None
            \<or> (\<exists>a. map_of ingredient ''allergens'' = Some a \<and> \<not> is_list a)"
  shows "\<not> valid result
         \<and> (''Ingredient '' @ str_nat i @
              (if map_of ingredient ''allergens'' = None
               then '': Missing required allergens field''
               else '': allergens must be an array'')) \<in> set (errors result)"
proof -
  let ?m = "''Ingredient '' @ str_nat i @
              (if map_of ingredient ''allergens'' = None
               then '': Missing required allergens field''
               else '': allergens must be an array'')"
  from validate_recipe_custom [OF run] obtain v r where
    r: "validate_custom_rules self recipe (schema_validation v recipe fresh) = Inr r" and
    same: "errors result = errors r" "valid result = valid r"
    by blast
  from ings have "py_iter (dict_get recipe ''ingredients'' (JArr [])) = Inr ingredients"
    by (simp add: dict_get_def)
  from custom_rules_ingredient [OF r this i] obtain d where
    d: "validate_ingredient (ingredients ! i) i fresh = Inr d" and
    sub: "holds r d"
    by blast
  from d ing obtain r1 r2 where
    al: "ingredient_allergens (JObj ingredient) i r1 = Inr r2" and
    m: "ingredient_machine_amount (JObj ingredient) i r2 = Inr d"
    by (auto simp: validate_ingredient_def and_then_eq_Inr)
  from a al have "r2 = append_error ?m (r1\<lparr>valid := False\<rparr>)"
    by (auto simp: allergens_absent allergens_not_list)
  then have "?m \<in> set (errors r2)" "\<not> valid r2"
    by (simp_all add: append_error_def)
  with stage_keeps [OF stage_ingredient_machine_amount m]
  have "?m \<in> set (errors d)" "\<not> valid d" by auto
  with sub same show ?thesis by (auto simp: holds_def)
qed

lemma missing_allergens_invalid_witness:
  "(\<exists>result self'. validate_recipe ready no_allergens = Inr (result, self')
       \<and> \<not> valid result
       \<and> ''Ingredient 0: Missing required allergens field'' \<in> set (errors result))
   \<and> (\<exists>result self'. validate_recipe ready allergens_text = Inr (result, self')
       \<and> \<not> valid result
       \<and> ''Ingredient 0: allergens must be an array'' \<in> set (errors result))"
proof -
  have "isl (validate_recipe ready no_allergens) = False" by code_simp
  then obtain r1 s1 where 1: "validate_recipe ready no_allergens = Inr (r1, s1)"
    by (cases "validate_recipe ready no_allergens") auto
  have "isl (validate_recipe ready allergens_text) = False" by code_simp
  then obtain r2 s2 where 2: "validate_recipe ready allergens_text = Inr (r2, s2)"
    by (cases "validate_recipe ready allergens_text") auto
  have z: "str_nat 0 = ''0''"
    by (simp add: str_nat.simps digit_char_def)
  from missing_allergens_invalid [OF 1, of "[JObj [(''id'', JStr ''ing-1'')]]" 0 "[(''id'', JStr ''ing-1'')]"]
  have "\<not> valid r1 \<and> ''Ingredient 0: Missing required allergens field'' \<in> set (errors r1)"
    by (simp add: no_allergens_def z)
  moreover
  from missing_allergens_invalid [OF 2, of "[JObj [(''id'', JStr ''ing-1''), (''allergens'', JStr ''milk'')]]" 0
         "[(''id'', JStr ''ing-1''), (''allergens'', JStr ''milk'')]"]
  have "\<not> valid r2 \<and> ''Ingredient 0: allergens must be an array'' \<in> set (errors r2)"
    by (simp add: allergens_text_def z)
  ultimately show ?thesis using 1 2 by blast
qed

text \<open>
  The call does not always return: \<^verbatim>\<open>_get_recipe_info\<close> iterates every
  \<^verbatim>\<open>allergens\<close> value, whatever \<^verbatim>\<open>_validate_ingredient\<close> found it to be, so a
  value that cannot be iterated (null, a number, a boolean) makes
  \<^verbatim>\<open>validate_recipe\<close> raise.
\<close>

lemma for_each_element:
  assumes "for_each f xs s = Inr s'" and "x \<in> set xs"
  shows "\<exists>a b. f x a = Inr b"
  using assms
proof (induction xs arbitrary: s)
  case Nil
  then show ?case by simp
next
  case (Cons y ys)
  from Cons.prems(1) obtain t where t: "f y s = Inr t" and rest: "for_each f ys t = Inr s'"
    by (auto simp: and_then_eq_Inr)
  show ?case
  proof (cases "x = y")
    case True
    with t show ?thesis by blast
  next
    case False
    with Cons.prems(2) have "x \<in> set ys" by simp
    from Cons.IH [OF rest this] show ?thesis .
  qed
qed

lemma get_recipe_info_allergens:
  assumes info: "get_recipe_info recipe = Inr i"
    and ings: "map_of recipe ''ingredients'' = Some (JArr ingredients)"
    and mem: "JObj ingredient \<in> set ingredients"
    and a: "map_of ingredient ''allergens'' = Some a"
  shows "\<exists>xs. py_iter a = Inr xs"
proof -
  from ings have "py_iter (dict_get recipe ''ingredients'' (JArr [])) = Inr ingredients"
    by (simp add: dict_get_def)
  with info obtain al where "for_each add_allergens ingredients [] = Inr al"
    by (auto simp: get_recipe_info_def Let_def and_then_eq_Inr)
  from for_each_element [OF this mem] obtain s s' where
    "add_allergens (JObj ingredient) s = Inr s'"
    by blast
  with a show ?thesis
    by (auto simp: add_allergens_def and_then_eq_Inr dict_get_def)
qed

lemma allergens_not_iterable:
  assumes ings: "map_of recipe ''ingredients'' = Some (JArr ingredients)"
    and mem: "JObj ingredient \<in> set ingredients"
    and a: "map_of ingredient ''allergens'' = Some a"
    and n: "a = JNull \<or> is_number a"
  shows "\<exists>e. validate_recipe self recipe = Inl e"
proof (cases "validate_recipe self recipe")
  case (Inl e)
  then show ?thesis by blast
next
  case (Inr p)
  then have "validate_recipe self recipe = Inr (fst p, snd p)" by simp
  from validate_recipe_custom [OF this] have "get_recipe_info recipe = Inr (info (fst p))"
    by blast
  from get_recipe_info_allergens [OF this ings mem a] obtain xs where "py_iter a = Inr xs"
    by blast
  with n show ?thesis by (cases a) (auto simp: is_number_def)
qed

text \<open>
  C4. The claim fails on \<open>null_allergens\<close>, whose ingredient has \<^verbatim>\<open>allergens\<close>
  null: \<^verbatim>\<open>_validate_ingredient\<close> clears \<^verbatim>\<open>valid\<close> and appends the error of
  ingredient 0, then \<^verbatim>\<open>_get_recipe_info\<close> iterates the value and raises
  \<^verbatim>\<open>TypeError\<close>, so \<^verbatim>\<open>validate_recipe\<close> raises and returns no result.
\<close>

theorem allergens_finding_lost:
  "validate_recipe ready null_allergens = Inl TypeError
   \<and> map_sum id (\<lambda>r. (valid r, errors r)) (validate_custom_rules ready null_allergens fresh)
       = Inr (False, [''Ingredient 0: allergens must be an array''])
   \<and> get_recipe_info null_allergens = Inl TypeError"
proof -
  have "map_sum id (\<lambda>p. ()) (validate_recipe ready null_allergens) = Inl TypeError"
    by code_simp
  then have "validate_recipe ready null_allergens = Inl TypeError"
    by (cases "validate_recipe ready null_allergens") auto
  moreover have "map_sum id (\<lambda>r. (valid r, errors r)) (validate_custom_rules ready null_allergens fresh)
       = Inr (False, [''Ingredient 0: allergens must be an array''])"
    by code_simp
  moreover have "get_recipe_info null_allergens = Inl TypeError"
    by code_simp
  ultimately show ?thesis by blast
qed

subsection \<open>Reference checks\<close>

lemma key_eq_str [simp]: "key_eq (JStr t) y \<longleftrightarrow> y = JStr t"
  by (cases y) (auto simp: key_eq_def)

lemma in_set_str [simp]: "in_set (JStr t) s \<longleftrightarrow> JStr t \<in> set s"
  by (auto simp: in_set_def list_ex_iff)







lemma step_label_JObj [simp]:
  "step_label (JObj step) = Inr (py_str (dict_get step ''step_id'' (JStr ''?'')))"
  by (simp add: step_label_def)



subsection \<open>The long cooking time\<close>
text \<open>Rounding to the nearest integer, and the exponent of the quotient.\<close>

lemma round_div_near:
  assumes "0 < b"
  shows "2 * \<bar>round_div a b * b - a\<bar> \<le> b"
proof -
  let ?q = "a div b" and ?r = "a mod b"
  have a: "a = ?q * b + ?r" by simp
  have r: "0 \<le> ?r" "?r < b" using assms by simp_all
  have 1: "?q * b - a = - ?r" using a by linarith
  have 2: "(?q + 1) * b - a = b - ?r" using a by (simp add: algebra_simps)
  show ?thesis
    unfolding round_div_def Let_def using r
    by (simp only: 1 2 split: if_splits) auto
qed

lemma bit_length_bounds:
  assumes "0 < n"
  shows "2 ^ (bit_length n - 1) \<le> n \<and> n < 2 ^ bit_length n"
  using assms
proof (induction n rule: bit_length.induct)
  case (1 n)
  show ?case
  proof (cases "n div 2 = 0")
    case True
    with 1(2) have "n = 1" by linarith
    then show ?thesis by (simp add: bit_length.simps)
  next
    case False
    with 1 have ih: "2 ^ (bit_length (n div 2) - 1) \<le> n div 2" "n div 2 < 2 ^ bit_length (n div 2)"
      by simp_all
    from False have pos: "0 < bit_length (n div 2)"
      by (simp add: bit_length.simps)
    have b: "bit_length n = Suc (bit_length (n div 2))"
      using 1(2) by (simp add: bit_length.simps)
    from pos have "(2::nat) ^ bit_length (n div 2) = 2 * 2 ^ (bit_length (n div 2) - 1)"
      by (cases "bit_length (n div 2)") simp_all
    with ih(1) have lo: "2 ^ bit_length (n div 2) \<le> n" by linarith
    from ih(2) have hi: "n < 2 * 2 ^ bit_length (n div 2)" by linarith
    from lo hi show ?thesis by (simp add: b)
  qed
qed

lemma div60_exponent_bounds:
  assumes "1440 < n"
  shows "\<exists>k::nat. div60_exponent n = int k - 52 \<and> 60 * 2 ^ k \<le> n \<and> n < 60 * 2 ^ Suc k"
proof -
  let ?b = "bit_length (nat n)"
  from assms have pos: "0 < nat n" by simp
  from bit_length_bounds [OF pos] have lo: "2 ^ (?b - 1) \<le> nat n" and hi: "nat n < 2 ^ ?b"
    by simp_all
  from lo have "int (2 ^ (?b - 1)) \<le> int (nat n)" by (simp only: of_nat_le_iff)
  with assms have lo': "(2::int) ^ (?b - 1) \<le> n" by simp
  from hi have "int (nat n) < int (2 ^ ?b)" by (simp only: of_nat_less_iff)
  with assms have hi': "n < (2::int) ^ ?b" by simp
  have b7: "7 \<le> ?b"
  proof (rule ccontr)
    assume "\<not> 7 \<le> ?b"
    then have "?b \<le> 6" by simp
    then have "(2::int) ^ ?b \<le> 2 ^ 6" by (intro power_increasing) simp_all
    with hi' assms show False by simp
  qed
  then obtain c where c: "?b = c + 7" by (metis add.commute le_Suc_ex)
  have p1: "(2::int) ^ ?b = 128 * 2 ^ c" and p2: "(2::int) ^ (?b - 1) = 64 * 2 ^ c"
    and p3: "(2::int) ^ (?b - 6) = 2 * 2 ^ c"
    by (simp_all add: c power_add)
  have x: "(0::int) < 2 ^ c" by simp
  show ?thesis
  proof (cases "60 * 2 ^ (?b - 6) \<le> n")
    case True
    then have "div60_exponent n = int (c + 1) - 52"
      by (simp add: div60_exponent_def Let_def c)
    moreover from True have "60 * 2 ^ (c + 1) \<le> n" by (simp add: p3)
    moreover have "n < 60 * 2 ^ Suc (c + 1)"
    proof -
      have "(60::int) * 2 ^ Suc (c + 1) = 240 * 2 ^ c" by simp
      with hi' x show ?thesis unfolding p1 by linarith
    qed
    ultimately show ?thesis by blast
  next
    case False
    then have "div60_exponent n = int c - 52"
      by (simp add: div60_exponent_def Let_def c)
    moreover from lo' x have "60 * 2 ^ c \<le> n"
      unfolding p2 by linarith
    moreover from False have "n < 60 * 2 ^ Suc c" by (simp add: p3)
    ultimately show ?thesis by blast
  qed
qed


text \<open>
  The tenths that are printed are within a twentieth of an hour, plus the rounding of
  the double, of the exact quotient: \<open>|t/10 - n/60| \<le> 1/20 + (n/60) / 2^53\<close>,
  here multiplied by \<open>60 * 2^53\<close>.
\<close>

lemma tenths_near:
  assumes n: "1440 < n" and d: "div60 n = Inr d"
  shows "2 ^ 53 * \<bar>6 * tenths d - n\<bar> \<le> 3 * 2 ^ 53 + n"
proof -
  from div60_exponent_bounds [OF n] obtain k :: nat where
    e: "div60_exponent n = int k - 52" and lo: "60 * 2 ^ k \<le> n"
    by blast
  show ?thesis
  proof (cases "52 \<le> k")
    case True
    define p :: int where "p = 2 ^ (k - 52)"
    have p: "0 < p" by (simp add: p_def)
    from True have ne: "nat (int k - 52) = k - 52" by simp
    from d e True have dd: "d = (round_div n (60 * p), int k - 52)"
      by (auto simp: div60_def Let_def ne p_def split: if_splits)
    with True have t: "tenths d = 10 * round_div n (60 * p) * p"
      by (simp add: tenths_def Let_def ne p_def)
    from p have "2 * \<bar>round_div n (60 * p) * (60 * p) - n\<bar> \<le> 60 * p"
      by (intro round_div_near) simp
    then have near: "\<bar>6 * tenths d - n\<bar> \<le> 30 * p"
      unfolding t by (simp add: algebra_simps)
    from True have "(2::int) ^ k = 2 ^ (52 + (k - 52))" by simp
    then have "(2::int) ^ k = 2 ^ 52 * p"
      unfolding p_def by (simp only: power_add)
    with lo have "2 ^ 53 * (30 * p) \<le> n" by simp
    moreover from near have "2 ^ 53 * \<bar>6 * tenths d - n\<bar> \<le> 2 ^ 53 * (30 * p)"
      by (intro mult_left_mono) simp_all
    ultimately have "2 ^ 53 * \<bar>6 * tenths d - n\<bar> \<le> n" by (rule order_trans [rotated])
    then show ?thesis by simp
  next
    case False
    define s :: int where "s = 2 ^ (52 - k)"
    have s: "0 < s" by (simp add: s_def)
    from False have neg: "\<not> 0 \<le> int k - 52" and ne: "nat (- (int k - 52)) = 52 - k"
      "nat (52 - int k) = 52 - k"
      by simp_all
    let ?m = "round_div (n * s) 60"
    from d e neg have dd: "d = (?m, int k - 52)"
      by (auto simp: div60_def Let_def ne s_def split: if_splits)
    with neg have t: "tenths d = round_div (10 * ?m) s"
      by (simp add: tenths_def Let_def ne s_def)
    have 1: "2 * \<bar>?m * 60 - n * s\<bar> \<le> 60"
      by (intro round_div_near) simp
    have 2: "2 * \<bar>tenths d * s - 10 * ?m\<bar> \<le> s"
      unfolding t using s by (rule round_div_near)
    from 1 2 have near: "\<bar>6 * tenths d - n\<bar> * s \<le> 3 * s + 30"
    proof -
      have "(6 * tenths d - n) * s = 6 * (tenths d * s) - n * s"
        by (simp add: algebra_simps)
      moreover have "\<bar>6 * tenths d - n\<bar> * s = \<bar>(6 * tenths d - n) * s\<bar>"
        using s by (intro abs_mult_pos) simp
      ultimately have "\<bar>6 * tenths d - n\<bar> * s = \<bar>6 * (tenths d * s) - n * s\<bar>"
        by simp
      also have "\<dots> \<le> 3 * s + 30"
      proof -
        define M T N where "M = ?m" and "T = tenths d * s" and "N = n * s"
        from 1 have "\<bar>M * 60 - N\<bar> \<le> 30"
          by (simp add: M_def N_def)
        then have a: "M * 60 - N \<le> 30 \<and> - (M * 60 - N) \<le> 30"
          by (simp only: abs_le_iff)
        have "\<bar>2 * (T - 10 * M)\<bar> = 2 * \<bar>T - 10 * M\<bar>"
          by (simp only: abs_mult abs_numeral)
        with 2 have "\<bar>2 * (T - 10 * M)\<bar> \<le> s"
          by (simp only: M_def T_def)
        then have b: "2 * (T - 10 * M) \<le> s \<and> - (2 * (T - 10 * M)) \<le> s"
          by (simp only: abs_le_iff)
        from b have b': "2 * T - 20 * M \<le> s" "20 * M - 2 * T \<le> s"
          by (simp_all add: algebra_simps)
        from a have a': "60 * M - N \<le> 30" "N - 60 * M \<le> 30"
          by (simp_all add: algebra_simps)
        from a' b' have "6 * T - N \<le> 3 * s + 30" "N - 6 * T \<le> 3 * s + 30"
          by linarith+
        then have "6 * T - N \<le> 3 * s + 30 \<and> - (6 * T - N) \<le> 3 * s + 30"
          by simp
        then have "\<bar>6 * T - N\<bar> \<le> 3 * s + 30"
          by (simp only: abs_le_iff)
        then show ?thesis by (simp add: T_def N_def)
      qed
      finally show ?thesis .
    qed
    from False have "(2::int) ^ 52 = 2 ^ (k + (52 - k))" by simp
    then have "(2::int) ^ 52 = 2 ^ k * s"
      unfolding s_def by (simp only: power_add)
    note p52 = this
    have big: "2 ^ 53 * 30 \<le> n * s"
    proof -
      from lo s have "60 * 2 ^ k * s \<le> n * s" by (intro mult_right_mono) simp_all
      then have "60 * (2 ^ k * s) \<le> n * s" by (simp only: mult.assoc)
      then have "60 * (2::int) ^ 52 \<le> n * s" by (simp only: p52)
      then show ?thesis by simp
    qed
    have "2 ^ 53 * \<bar>6 * tenths d - n\<bar> * s \<le> 2 ^ 53 * (3 * s + 30)"
      using near by (simp add: mult.assoc)
    also have "\<dots> \<le> (3 * 2 ^ 53 + n) * s"
      using big by (simp add: algebra_simps)
    finally show ?thesis using s by (simp only: mult_le_cancel_right)
  qed
qed

lemma num_val_gt: "py_gt (JInt n) c = Inr (c < n)"
  by (simp add: py_gt_def)

lemma warn_if_mono: "m \<in> set ws \<Longrightarrow> m \<in> set (warn_if c m' ws)"
  by (simp add: warn_if_def)

lemma check_warnings_long:
  assumes ws: "check_warnings recipe = Inr ws"
    and meta: "map_of recipe ''meta'' = Some (JObj meta)"
    and time: "map_of meta ''total_time_minutes'' = Some (JInt n)"
    and long: "1440 < n"
  shows "\<exists>m. long_time_message (JInt n) = Inr m \<and> m \<in> set ws"
proof -
  from meta have m: "dict_get recipe ''meta'' (JObj []) = JObj meta"
    by (simp add: dict_get_def)
  from time have t: "dict_get meta ''total_time_minutes'' (JInt 0) = JInt n"
    by (simp add: dict_get_def)
  from ws show ?thesis
    unfolding check_warnings_def Let_def and_then_eq_Inr m
    using long by (auto simp: t num_val_gt and_then_eq_Inr intro!: warn_if_mono)
qed

text \<open>
  Where \<^verbatim>\<open>validate_recipe\<close> returns for a document whose
  \<^verbatim>\<open>meta.total_time_minutes\<close> is an int \<open>n\<close> above 1440, the warnings hold the line
  \<^verbatim>\<open>Very long cooking time (<n> min / <h> hours)\<close>, where \<open>h\<close> is the quotient
  \<open>n / 60\<close> printed with one fractional digit: the decimal \<open>t / 10\<close> for an integer
  \<open>t\<close> with \<open>|t/10 - n/60| \<le> 1/20 + (n/60) / 2^53\<close>. For 1500 it is \<^verbatim>\<open>25.0\<close>.
\<close>

lemma long_cooking_time_warning:
  assumes run: "validate_recipe self recipe = Inr (result, self')"
    and meta: "map_of recipe ''meta'' = Some (JObj meta)"
    and time: "map_of meta ''total_time_minutes'' = Some (JInt n)"
    and long: "1440 < n"
  shows "\<exists>hours. div60 n = Inr hours
           \<and> (''Very long cooking time ('' @ str_int n @ '' min / '' @ fmt_1f hours @ '' hours)'')
               \<in> set (warnings result)
           \<and> fmt_1f hours = str_int (tenths hours div 10) @ ''.''
                                 @ [digit_char (nat (tenths hours mod 10))]
           \<and> 2 ^ 53 * \<bar>6 * tenths hours - n\<bar> \<le> 3 * 2 ^ 53 + n
           \<and> (n = 1500 \<longrightarrow> fmt_1f hours = ''25.0'')"
proof -
  from validate_recipe_custom [OF run] have ws: "check_warnings recipe = Inr (warnings result)"
    by blast
  from check_warnings_long [OF ws meta time long] obtain m1 where
    msg: "long_time_message (JInt n) = Inr m1" and out: "m1 \<in> set (warnings result)"
    by blast
  from msg obtain hours where h: "div60 n = Inr hours" and
    m1: "m1 = ''Very long cooking time ('' @ str_int n @ '' min / '' @ fmt_1f hours @ '' hours)''"
    by (auto simp: long_time_message_def and_then_eq_Inr)
  have "n = 1500 \<longrightarrow> fmt_1f hours = ''25.0''"
  proof
    assume "n = 1500"
    with h have "div60 1500 = Inr hours" by simp
    moreover have "map_sum id fmt_1f (div60 1500) = Inr ''25.0''" by code_simp
    ultimately show "fmt_1f hours = ''25.0''" by simp
  qed
  moreover have "fmt_1f hours = str_int (tenths hours div 10) @ ''.''
                                 @ [digit_char (nat (tenths hours mod 10))]"
    by (simp add: fmt_1f_def Let_def)
  moreover note tenths_near [OF long h]
  ultimately show ?thesis using out h m1 by blast
qed

lemma long_cooking_time_warning_witness:
  "\<exists>result self'. validate_recipe ready slow_recipe = Inr (result, self')
     \<and> ''Very long cooking time (1500 min / 25.0 hours)'' \<in> set (warnings result)
     \<and> sublist ''25.0 hours'' ''Very long cooking time (1500 min / 25.0 hours)''"
proof -
  have "isl (validate_recipe ready slow_recipe) = False" by code_simp
  then obtain r s where 1: "validate_recipe ready slow_recipe = Inr (r, s)"
    by (cases "validate_recipe ready slow_recipe") auto
  have n: "str_int 1500 = ''1500''" by code_simp
  have m: "map_of slow_recipe ''meta''
             = Some (JObj [(''name'', JStr ''Stock''), (''total_time_minutes'', JInt 1500)])"
    by (simp add: slow_recipe_def)
  have t: "map_of [(''name'', JStr ''Stock''), (''total_time_minutes'', JInt 1500)]
             ''total_time_minutes'' = Some (JInt 1500)"
    by simp
  have l: "(1440::int) < 1500" by simp
  from long_cooking_time_warning [OF 1 m t l] obtain hours where
    w: "(''Very long cooking time ('' @ str_int 1500 @ '' min / '' @ fmt_1f hours @ '' hours)'')
          \<in> set (warnings r)" and
    f: "fmt_1f hours = ''25.0''"
    by blast
  from w have "''Very long cooking time (1500 min / 25.0 hours)'' \<in> set (warnings r)"
    by (simp only: f n) simp
  moreover have "sublist ''25.0 hours'' ''Very long cooking time (1500 min / 25.0 hours)''"
    by code_simp
  ultimately show ?thesis using 1 by blast
qed

text \<open>
  The call does not always return: the quotient \<^verbatim>\<open>total_time / 60\<close> of an int is
  a double, and the division raises \<^verbatim>\<open>OverflowError\<close> when the quotient is beyond
  the doubles. From \<open>60 * 2^1024\<close> on, \<^verbatim>\<open>_check_warnings\<close> raises, and so does
  \<^verbatim>\<open>validate_recipe\<close>.
\<close>

lemma div60_overflow:
  assumes "60 * 2 ^ 1024 \<le> n"
  shows "div60 n = Inl OverflowError"
proof -
  have "(1440::int) < 60 * 2 ^ 1024" by simp
  with assms have "1440 < n" by linarith
  from div60_exponent_bounds [OF this] obtain k :: nat where
    e: "div60_exponent n = int k - 52" and hi: "n < 60 * 2 ^ Suc k"
    by blast
  from assms hi have "(2::int) ^ 1024 < 2 ^ Suc k" by linarith
  then have "1024 < Suc k" by (simp only: power_strict_increasing_iff)
  then have "971 < div60_exponent n" using e by simp
  then show ?thesis by (simp add: div60_def Let_def)
qed

lemma long_time_message_overflow:
  assumes "60 * 2 ^ 1024 \<le> n"
  shows "long_time_message (JInt n) = Inl OverflowError"
  by (simp add: long_time_message_def div60_overflow [OF assms] and_then_def)

lemma check_warnings_overflow:
  assumes meta: "map_of recipe ''meta'' = Some (JObj meta)"
    and time: "map_of meta ''total_time_minutes'' = Some (JInt n)"
    and big: "60 * 2 ^ 1024 \<le> n"
  shows "\<exists>e. check_warnings recipe = Inl e"
proof (cases "check_warnings recipe")
  case (Inl e)
  then show ?thesis by blast
next
  case (Inr ws)
  have "(1440::int) < 60 * 2 ^ 1024" by simp
  with big have "1440 < n" by linarith
  from check_warnings_long [OF Inr meta time this] obtain m where
    "long_time_message (JInt n) = Inr m" by blast
  with long_time_message_overflow [OF big] show ?thesis by simp
qed

lemma overflow_raises:
  assumes meta: "map_of recipe ''meta'' = Some (JObj meta)"
    and time: "map_of meta ''total_time_minutes'' = Some (JInt n)"
    and big: "60 * 2 ^ 1024 \<le> n"
  shows "\<exists>e. validate_recipe self recipe = Inl e"
proof (cases "validate_recipe self recipe")
  case (Inl e)
  then show ?thesis by blast
next
  case (Inr p)
  then have "validate_recipe self recipe = Inr (fst p, snd p)" by simp
  from validate_recipe_custom [OF this] have "check_warnings recipe = Inr (warnings (fst p))"
    by blast
  with check_warnings_overflow [OF meta time big] show ?thesis by auto
qed

lemma check_warnings_endless:
  assumes "60 * 2 ^ 1024 \<le> n" and "1440 < n"
  shows "check_warnings
     [(''id'', JStr ''rcip-0123abcd-0123-4567-89ab-0123456789ab''),
      (''rcip_version'', JStr ''0.1''),
      (''meta'', JObj [(''name'', JStr ''Stock''), (''total_time_minutes'', JInt n)]),
      (''ingredients'', JArr [JObj [(''id'', JStr ''ing-1''), (''allergens'', JArr [])]]),
      (''steps'', JArr [])] = Inl OverflowError"
  using assms(2)
  by (simp add: check_warnings_def dict_get_def Let_def and_then_def has_external_id_def
        warn_if_def py_gt_def long_time_message_overflow [OF assms(1)])

text \<open>
  C7. The claim fails on \<open>endless_recipe\<close>, whose \<^verbatim>\<open>meta.total_time_minutes\<close> is
  the int \<open>10^400\<close>: the custom rules pass it without a finding, and
  \<^verbatim>\<open>_check_warnings\<close> raises \<^verbatim>\<open>OverflowError\<close> while it builds the warning, at
  \<^verbatim>\<open>total_time / 60\<close>; \<^verbatim>\<open>validate_recipe\<close> raises and returns no warnings list.
\<close>

theorem long_cooking_time_overflow:
  "validate_recipe ready endless_recipe = Inl OverflowError
   \<and> map_sum id (\<lambda>r. (valid r, errors r)) (validate_custom_rules ready endless_recipe fresh)
       = Inr (True, [])
   \<and> check_warnings endless_recipe = Inl OverflowError"
proof -
  have cw: "check_warnings endless_recipe = Inl OverflowError"
    unfolding endless_recipe_def by (rule check_warnings_endless) simp_all
  have cr: "map_sum id (\<lambda>r. (valid r, errors r)) (validate_custom_rules ready endless_recipe fresh)
       = Inr (True, [])"
    by code_simp
  then obtain r where r: "validate_custom_rules ready endless_recipe fresh = Inr r"
    by (cases "validate_custom_rules ready endless_recipe fresh") auto
  have v: "validator ready = Some conforming" by (simp add: ready_def)
  have s: "schema_validation conforming endless_recipe fresh = fresh"
    by (simp add: schema_validation_def conforming_def)
  have "validate_recipe ready endless_recipe = Inl OverflowError"
    by (simp add: validate_recipe_def v s r cw and_then_def Let_def)
  with cw cr show ?thesis by blast
qed

subsection \<open>Documents that differ in one step\<close>

text \<open>A loop depends on its list only through what its body is on each element.\<close>

lemma for_each_cong_map:
  assumes "map f ys = map f xs"
  shows "for_each f ys = for_each f xs"
  using assms
proof (induction xs arbitrary: ys)
  case Nil
  then show ?case by simp
next
  case (Cons x xs)
  then obtain y ys' where ys: "ys = y # ys'" and y: "f y = f x" and m: "map f ys' = map f xs"
    by (cases ys) auto
  from Cons.IH [OF m] y show ?case
    unfolding ys by (intro ext) simp
qed

lemma for_each_update:
  assumes "k < length xs" and "f y = f (xs ! k)"
  shows "for_each f (xs[k := y]) = for_each f xs"
proof (rule for_each_cong_map)
  from assms show "map f (xs[k := y]) = map f xs"
    by (simp add: map_update list_update_same_conv)
qed

lemma enumerate_update: "enumerate n (xs[k := y]) = (enumerate n xs)[k := (n + k, y)]"
proof (induction xs arbitrary: n k)
  case Nil
  then show ?case by simp
next
  case (Cons x xs)
  then show ?case by (cases k) simp_all
qed

lemma for_enumerate_update:
  assumes "k < length xs" and "f y k = f (xs ! k) k"
  shows "for_enumerate f (xs[k := y]) = for_enumerate f xs"
proof -
  have "for_each (\<lambda>ix. f (snd ix) (fst ix)) ((enumerate 0 xs)[k := (k, y)])
          = for_each (\<lambda>ix. f (snd ix) (fst ix)) (enumerate 0 xs)"
    using assms by (intro for_each_update) (simp_all add: nth_enumerate_eq)
  then show ?thesis
    by (intro ext) (simp add: for_enumerate_def enumerate_update)
qed

lemma collect_ids_update:
  assumes "k < length xs"
    and "py_contains key y = py_contains key (xs ! k)"
    and "py_getitem y key = py_getitem (xs ! k) key"
  shows "collect_ids key (xs[k := y]) = collect_ids key xs"
  unfolding collect_ids_def using assms by (subst for_each_update) (simp_all cong: if_cong)

text \<open>What each rule reads of a step that is a dict.\<close>

lemma getitem_JObj: "py_getitem (JObj kvs) k = (case map_of kvs k of None \<Rightarrow> Inl KeyError | Some v \<Rightarrow> Inr v)"
  by simp

lemma step_id_format_cong:
  assumes "map_of b ''step_id'' = map_of a ''step_id''"
  shows "step_id_format (JObj b) = step_id_format (JObj a)"
  by (intro ext) (simp only: step_id_format_def contains_JObj py_getitem.simps assms)

lemma step_action_cong:
  assumes "map_of b ''action'' = map_of a ''action''"
  shows "step_action (JObj b) = step_action (JObj a)"
  by (intro ext) (simp only: step_action_def contains_JObj py_getitem.simps assms)

lemma step_label_cong:
  assumes "map_of b ''step_id'' = map_of a ''step_id''"
  shows "step_label (JObj b) = step_label (JObj a)"
  using assms by (simp add: step_label_def dict_get_def)

lemma check_target_cong:
  assumes "map_of b ''step_id'' = map_of a ''step_id''"
  shows "check_target iids sids (JObj b) = check_target iids sids (JObj a)"
  by (intro ext) (simp only: check_target_def step_label_cong [OF assms])

lemma check_device_ref_cong:
  assumes "map_of b ''step_id'' = map_of a ''step_id''"
    and "map_of b ''device_profile_ref'' = map_of a ''device_profile_ref''"
  shows "check_device_ref dids (JObj b) = check_device_ref dids (JObj a)"
  by (intro ext)
     (simp only: check_device_ref_def contains_JObj py_getitem.simps assms(2)
        step_label_cong [OF assms(1)])

lemma check_step_targets_cong:
  assumes "map_of b ''step_id'' = map_of a ''step_id''"
    and "map_of b ''target'' = map_of a ''target''"
  shows "check_step_targets iids sids (JObj b) = check_step_targets iids sids (JObj a)"
  by (intro ext)
     (simp only: check_step_targets_def contains_JObj py_getitem.simps assms(2)
        check_target_cong [OF assms(1)])

text \<open>A \<^verbatim>\<open>hazards\<close> value that is not a list is not looked at.\<close>

lemma step_hazards_not_list:
  assumes "map_of step ''hazards'' = Some h" and "\<not> is_list h"
  shows "step_hazards (JObj step) index result = Inr result"
  using assms by (cases h) (simp_all add: step_hazards_def)

lemma step_hazards_absent:
  assumes "map_of step ''hazards'' = None"
  shows "step_hazards (JObj step) index result = Inr result"
  using assms by (simp add: step_hazards_def)

text \<open>Replacing the list of steps of a document.\<close>

lemma dict_get_update:
  "dict_get (AList.update k v al) k' d = (if k' = k then v else dict_get al k' d)"
  by (simp add: dict_get_def update_conv')

lemma map_of_update_other: "k' \<noteq> k \<Longrightarrow> map_of (AList.update k v al) k' = map_of al k'"
  by (simp add: update_conv')

lemma recipe_id_format_steps:
  "recipe_id_format (AList.update ''steps'' v recipe) = recipe_id_format recipe"
  by (intro ext) (simp add: recipe_id_format_def map_of_update_other)

lemma version_compatibility_steps:
  "version_compatibility self (AList.update ''steps'' v recipe) = version_compatibility self recipe"
  by (intro ext) (simp add: version_compatibility_def map_of_update_other)

lemma check_warnings_steps:
  "check_warnings (AList.update ''steps'' v recipe) = check_warnings recipe"
  by (simp only: check_warnings_def dict_get_update) simp

lemma get_recipe_info_steps:
  assumes "py_len v = py_len (dict_get recipe ''steps'' (JArr []))"
  shows "get_recipe_info (AList.update ''steps'' v recipe) = get_recipe_info recipe"
  by (simp only: get_recipe_info_def dict_get_update) (simp add: assms)


text \<open>
  Replacing step \<open>k\<close> by a dict that has the same \<^verbatim>\<open>step_id\<close>,
  \<^verbatim>\<open>device_profile_ref\<close> and (for the second lemma) \<^verbatim>\<open>action\<close> and
  \<^verbatim>\<open>target\<close>.
\<close>

lemma validate_step_cong:
  assumes "map_of b ''step_id'' = map_of a ''step_id''"
    and "map_of b ''action'' = map_of a ''action''"
    and "step_hazards (JObj b) = step_hazards (JObj a)"
  shows "validate_step (JObj b) = validate_step (JObj a)"
  by (intro ext)
     (simp only: validate_step_def step_id_format_cong [OF assms(1)] step_action_cong [OF assms(2)]
        assms(3))

lemma validate_references_replace_step:
  assumes steps: "map_of recipe ''steps'' = Some (JArr steps)"
    and k: "k < length steps" and a: "steps ! k = JObj a"
    and id: "map_of b ''step_id'' = map_of a ''step_id''"
    and tg: "map_of b ''target'' = map_of a ''target''"
    and dv: "map_of b ''device_profile_ref'' = map_of a ''device_profile_ref''"
  shows "validate_references (AList.update ''steps'' (JArr (steps[k := JObj b])) recipe)
           = validate_references recipe"
proof -
  from steps have s: "dict_get recipe ''steps'' (JArr []) = JArr steps"
    by (simp add: dict_get_def)
  have c: "collect_ids ''step_id'' (steps[k := JObj b]) = collect_ids ''step_id'' steps"
    using k a id by (intro collect_ids_update) simp_all
  have t: "for_each (check_step_targets iids sids) (steps[k := JObj b])
             = for_each (check_step_targets iids sids) steps" for iids sids
    using k a by (intro for_each_update) (simp_all add: check_step_targets_cong [OF id tg])
  have d: "for_each (check_device_ref dids) (steps[k := JObj b])
             = for_each (check_device_ref dids) steps" for dids
    using k a by (intro for_each_update) (simp_all add: check_device_ref_cong [OF id dv])
  show ?thesis
    by (intro ext) (simp add: validate_references_def dict_get_update s c t d)
qed

lemma custom_rules_replace_step:
  assumes steps: "map_of recipe ''steps'' = Some (JArr steps)"
    and k: "k < length steps" and a: "steps ! k = JObj a"
    and id: "map_of b ''step_id'' = map_of a ''step_id''"
    and ac: "map_of b ''action'' = map_of a ''action''"
    and tg: "map_of b ''target'' = map_of a ''target''"
    and dv: "map_of b ''device_profile_ref'' = map_of a ''device_profile_ref''"
    and hz: "step_hazards (JObj b) = step_hazards (JObj a)"
  shows "validate_custom_rules self (AList.update ''steps'' (JArr (steps[k := JObj b])) recipe)
           = validate_custom_rules self recipe"
proof -
  from steps have s: "dict_get recipe ''steps'' (JArr []) = JArr steps"
    by (simp add: dict_get_def)
  have v: "for_enumerate validate_step (steps[k := JObj b]) = for_enumerate validate_step steps"
    using k a by (intro for_enumerate_update) (simp_all add: validate_step_cong [OF id ac hz])
  note r = validate_references_replace_step [OF steps k a id tg dv]
  show ?thesis
    by (intro ext)
       (simp add: validate_custom_rules_def dict_get_update s v r recipe_id_format_steps
          version_compatibility_steps)
qed

subsection \<open>A \<^verbatim>\<open>hazards\<close> value that is not a list\<close>
text \<open>
  C10, as the claim states it, fails: with a schema that types \<^verbatim>\<open>hazards\<close> as an
  array, \<^verbatim>\<open>validate_recipe\<close> reports the string \<^verbatim>\<open>hot\<close> given as
  \<^verbatim>\<open>hazards\<close> of step 0 (two error lines from the schema stage), and reports nothing
  for the same document without the field.
\<close>

theorem hazards_reported_by_schema:
  "map_of hazards_text ''steps'' = Some (JArr [JObj hazards_step])
   \<and> map_of hazards_step ''hazards'' = Some (JStr ''hot'')
   \<and> (\<exists>result self'. validate_recipe strict hazards_text = Inr (result, self')
         \<and> \<not> valid result
         \<and> errors result =
             [''Schema validation failed: '' @ quoted ''hot'' @ '' is not of type '' @ quoted ''array'',
              ''steps > 0 > hazards: '' @ quoted ''hot'' @ '' is not of type '' @ quoted ''array''])
   \<and> (\<exists>result self'.
         validate_recipe strict
           (AList.update ''steps'' (JArr [JObj (AList.delete ''hazards'' hazards_step)]) hazards_text)
           = Inr (result, self')
         \<and> valid result \<and> errors result = [])"
proof -
  have 1: "map_of hazards_text ''steps'' = Some (JArr [JObj hazards_step])"
    by (simp add: hazards_text_def)
  have 2: "map_of hazards_step ''hazards'' = Some (JStr ''hot'')"
    by (simp add: hazards_step_def)
  have "map_sum id (\<lambda>p. (valid (fst p), errors (fst p))) (validate_recipe strict hazards_text)
          = Inr (False,
             [''Schema validation failed: '' @ quoted ''hot'' @ '' is not of type '' @ quoted ''array'',
              ''steps > 0 > hazards: '' @ quoted ''hot'' @ '' is not of type '' @ quoted ''array''])"
    by code_simp
  then have 3: "\<exists>result self'. validate_recipe strict hazards_text = Inr (result, self')
         \<and> \<not> valid result
         \<and> errors result =
             [''Schema validation failed: '' @ quoted ''hot'' @ '' is not of type '' @ quoted ''array'',
              ''steps > 0 > hazards: '' @ quoted ''hot'' @ '' is not of type '' @ quoted ''array'']"
    by (cases "validate_recipe strict hazards_text") auto
  have "map_sum id (\<lambda>p. (valid (fst p), errors (fst p)))
          (validate_recipe strict
             (AList.update ''steps'' (JArr [JObj (AList.delete ''hazards'' hazards_step)]) hazards_text))
          = Inr (True, [])"
    by code_simp
  then have 4: "\<exists>result self'.
         validate_recipe strict
           (AList.update ''steps'' (JArr [JObj (AList.delete ''hazards'' hazards_step)]) hazards_text)
           = Inr (result, self')
         \<and> valid result \<and> errors result = []"
    by (cases "validate_recipe strict
           (AList.update ''steps'' (JArr [JObj (AList.delete ''hazards'' hazards_step)]) hazards_text)")
       auto
  from 1 2 3 4 show ?thesis by blast
qed

text \<open>
  C10, amended. For a step that is a dict whose \<^verbatim>\<open>hazards\<close> is present and not a
  list, the hazard check does nothing, and the validator's own rules
  (\<^verbatim>\<open>_validate_custom_rules\<close>, \<^verbatim>\<open>_check_warnings\<close>) do on the document what they
  do on the document without that field; a call of \<^verbatim>\<open>validate_recipe\<close> differs
  between the two documents only where the schema checker does.
\<close>

theorem hazards_not_list_unchecked:
  assumes steps: "map_of recipe ''steps'' = Some (JArr steps)"
    and k: "k < length steps"
    and step: "steps ! k = JObj step"
    and h: "map_of step ''hazards'' = Some h"
    and nl: "\<not> is_list h"
  shows "step_hazards (JObj step) index result = Inr result
         \<and> validate_custom_rules self
              (AList.update ''steps'' (JArr (steps[k := JObj (AList.delete ''hazards'' step)])) recipe)
              result
             = validate_custom_rules self recipe result
         \<and> check_warnings
              (AList.update ''steps'' (JArr (steps[k := JObj (AList.delete ''hazards'' step)])) recipe)
             = check_warnings recipe
         \<and> ((\<forall>v. validator self = Some v \<longrightarrow>
                v (JObj (AList.update ''steps''
                     (JArr (steps[k := JObj (AList.delete ''hazards'' step)])) recipe))
                  = v (JObj recipe))
              \<longrightarrow> validate_recipe self
                    (AList.update ''steps'' (JArr (steps[k := JObj (AList.delete ''hazards'' step)])) recipe)
                  = validate_recipe self recipe)"
proof -
  let ?recipe' = "AList.update ''steps'' (JArr (steps[k := JObj (AList.delete ''hazards'' step)])) recipe"
  have 1: "step_hazards (JObj step) i r = Inr r" for i r
    using h nl by (rule step_hazards_not_list)
  have "map_of (AList.delete ''hazards'' step) ''hazards'' = None"
    by (simp add: delete_conv')
  then have 2: "step_hazards (JObj (AList.delete ''hazards'' step)) i r = Inr r" for i r
    by (rule step_hazards_absent)
  from 1 2 have hz: "step_hazards (JObj (AList.delete ''hazards'' step)) = step_hazards (JObj step)"
    by (intro ext) simp
  have c: "validate_custom_rules self ?recipe' = validate_custom_rules self recipe"
    by (rule custom_rules_replace_step [OF steps k step _ _ _ _ hz]) simp_all
  have w: "check_warnings ?recipe' = check_warnings recipe"
    by (rule check_warnings_steps)
  from steps have i: "get_recipe_info ?recipe' = get_recipe_info recipe"
    by (intro get_recipe_info_steps) (simp add: dict_get_def)
  have "validate_recipe self ?recipe' = validate_recipe self recipe"
    if "\<forall>v. validator self = Some v \<longrightarrow> v (JObj ?recipe') = v (JObj recipe)"
  proof (cases "validator self")
    case None
    then show ?thesis by (simp add: validate_recipe_def)
  next
    case (Some v)
    with that have "schema_validation v ?recipe' = schema_validation v recipe"
      by (intro ext) (simp add: schema_validation_def)
    with Some show ?thesis
      by (simp add: validate_recipe_def c w i)
  qed
  with 1 c w show ?thesis by simp
qed

theorem hazards_not_list_unchecked_witness:
  "step_hazards (JObj hazards_step) 0 fresh = Inr fresh
   \<and> validate_custom_rules ready
        (AList.update ''steps'' (JArr [JObj (AList.delete ''hazards'' hazards_step)]) hazards_text) fresh
       = validate_custom_rules ready hazards_text fresh
   \<and> map_sum id (\<lambda>r. (valid r, errors r, warnings r)) (validate_custom_rules ready hazards_text fresh)
       = Inr (True, [], [])
   \<and> validate_recipe ready
        (AList.update ''steps'' (JArr [JObj (AList.delete ''hazards'' hazards_step)]) hazards_text)
       = validate_recipe ready hazards_text"
proof -
  have s: "map_of hazards_text ''steps'' = Some (JArr [JObj hazards_step])"
    by (simp add: hazards_text_def)
  have h: "map_of hazards_step ''hazards'' = Some (JStr ''hot'')"
    by (simp add: hazards_step_def)
  have v: "\<forall>v. validator ready = Some v \<longrightarrow>
             v (JObj (AList.update ''steps''
                  (JArr ([JObj hazards_step][0 := JObj (AList.delete ''hazards'' hazards_step)])) hazards_text))
               = v (JObj hazards_text)"
    by (simp add: ready_def conforming_def)
  have e: "map_sum id (\<lambda>r. (valid r, errors r, warnings r)) (validate_custom_rules ready hazards_text fresh)
       = Inr (True, [], [])"
    by code_simp
  from hazards_not_list_unchecked [OF s, of 0 hazards_step "JStr ''hot''" 0 fresh ready, OF _ _ h] v e
  show ?thesis by simp
qed

subsection \<open>One error more\<close>





















subsection \<open>Unresolved step references\<close>



end
